theory Spec2Isabelle
  imports Main "HOL-Library.Word"
begin

unbundle bit_operations_syntax

section \<open>Configuration parameters (config\_param.h)\<close>

text \<open>
  \<open>ConfigParamBase<T>\<close> holds the private fields \<open>_value\<close>, \<open>_visible\<close> and \<open>_locked\<close>.
  The pure virtual \<open>vIsValid\<close> is supplied by the subclass; it is a field of the record so
  that every subclass is an instance.
\<close>

record 'a ConfigParamBase =
  cp_value :: 'a
  cp_visible :: bool
  cp_locked :: bool
  cp_vIsValid :: "'a \<Rightarrow> bool"

definition Get :: "'a ConfigParamBase \<Rightarrow> 'a" where
  "Get p = cp_value p"

definition IsOptionVisible :: "'a ConfigParamBase \<Rightarrow> bool" where
  "IsOptionVisible p = cp_visible p"

definition IsLocked :: "'a ConfigParamBase \<Rightarrow> bool" where
  "IsLocked p = cp_locked p"

definition IsValid :: "'a ConfigParamBase \<Rightarrow> 'a \<Rightarrow> bool" where
  "IsValid p v =
     (if \<not> IsOptionVisible p then False
      else if IsLocked p then v = cp_value p
      else cp_vIsValid p v)"

definition Set :: "'a ConfigParamBase \<Rightarrow> 'a \<Rightarrow> bool \<times> 'a ConfigParamBase" where
  "Set p v =
     (if IsLocked p then (False, p)
      else if IsValid p v then (True, p\<lparr>cp_value := v\<rparr>)
      else (False, p))"

text \<open>
  \<open>RangeConfigParam<int>\<close>: \<open>vIsValid\<close> with the bounds \<open>_min\<close> and \<open>_max\<close>, and the
  constructor that takes a value and a range, which clamps the value as \<open>SetRange\<close> does.
\<close>

definition Range_vIsValid :: "int \<Rightarrow> int \<Rightarrow> int \<Rightarrow> bool" where
  "Range_vIsValid mn mx v = (v \<ge> mn \<and> v \<le> mx)"

definition RangeConfigParam :: "int \<Rightarrow> int \<Rightarrow> int \<Rightarrow> int ConfigParamBase" where
  "RangeConfigParam v mn mx =
     (let v1 = (if v < mn then mn else v);
          v2 = (if v1 > mx then mx else v1)
      in \<lparr>cp_value = v2, cp_visible = True, cp_locked = False,
          cp_vIsValid = Range_vIsValid mn mx\<rparr>)"

section \<open>Typed reads (filesystem\_stream.h)\<close>

type_synonym byte = "8 word"

text \<open>
  What \<open>std::istream::read\<close> observes of an input stream: the characters its stream buffer
  still delivers from the current position, whether \<open>good()\<close> holds, and \<open>gcount()\<close>.
  \<open>read(p, n)\<close> extracts nothing when the stream is not good; otherwise it stores
  characters at \<open>p\<close> until \<open>n\<close> are stored or the input ends, in which case it sets
  \<open>failbit | eofbit\<close>. The destination is the object representation, a byte list whose
  length is \<open>sizeof(T)\<close>; bytes that are not overwritten keep their old content.
\<close>

record istream =
  is_data :: "byte list"
  is_good :: bool
  is_gcount :: nat

definition istream_read :: "istream \<Rightarrow> byte list \<Rightarrow> nat \<Rightarrow> byte list \<times> istream" where
  "istream_read s dst n =
     (if \<not> is_good s then (dst, s\<lparr>is_good := False, is_gcount := 0\<rparr>)
      else let got = take n (is_data s) in
        (got @ drop (length got) dst,
         s\<lparr>is_data := drop n (is_data s), is_good := (length got = n),
           is_gcount := length got\<rparr>))"

definition Read0 :: "istream \<Rightarrow> byte list \<Rightarrow> bool \<times> byte list \<times> istream" where
  "Read0 s obj =
     (let (obj', s') = istream_read s obj (length obj)
      in (is_gcount s' = length obj, obj', s'))"

text \<open>
  Object representation of the 16-bit and 32-bit integers on a host that is big-endian
  (\<open>big = True\<close>) or little-endian. \<open>int16_t\<close> and \<open>int32_t\<close> are the same bit patterns,
  read by \<open>sint\<close>; the conversions \<open>uint16_t uobj = obj\<close> and \<open>obj = uobj\<close> keep the bits.
\<close>

definition cat16 :: "byte \<Rightarrow> byte \<Rightarrow> 16 word" where
  "cat16 a b = push_bit 8 (ucast a) OR ucast b"

definition load16 :: "bool \<Rightarrow> byte list \<Rightarrow> 16 word" where
  "load16 big m = (if big then cat16 (m ! 0) (m ! 1) else cat16 (m ! 1) (m ! 0))"

definition store16 :: "bool \<Rightarrow> 16 word \<Rightarrow> byte list" where
  "store16 big v =
     (if big then [ucast (drop_bit 8 v), ucast v] else [ucast v, ucast (drop_bit 8 v)])"

definition cat32 :: "byte \<Rightarrow> byte \<Rightarrow> byte \<Rightarrow> byte \<Rightarrow> 32 word" where
  "cat32 a b c d =
     push_bit 24 (ucast a) OR push_bit 16 (ucast b) OR push_bit 8 (ucast c) OR ucast d"

definition load32 :: "bool \<Rightarrow> byte list \<Rightarrow> 32 word" where
  "load32 big m =
     (if big then cat32 (m ! 0) (m ! 1) (m ! 2) (m ! 3)
      else cat32 (m ! 3) (m ! 2) (m ! 1) (m ! 0))"

definition store32 :: "bool \<Rightarrow> 32 word \<Rightarrow> byte list" where
  "store32 big v =
     (if big then [ucast (drop_bit 24 v), ucast (drop_bit 16 v), ucast (drop_bit 8 v), ucast v]
      else [ucast v, ucast (drop_bit 8 v), ucast (drop_bit 16 v), ucast (drop_bit 24 v)])"

text \<open>
  Modelled from the spec: \<open>Utils::SwapByteOrder\<close> (utils.h, not under src/). The spec
  says it performs "an endianness swap from the persisted on-disk byte order to host
  order" and that the swap is an involution. \<open>disk_big\<close> and \<open>host_big\<close> name the two byte
  orders; the value is left alone when they agree and its bytes are reversed otherwise.
\<close>

definition SwapByteOrder16 :: "bool \<Rightarrow> bool \<Rightarrow> 16 word \<Rightarrow> 16 word" where
  "SwapByteOrder16 disk_big host_big us =
     (if disk_big = host_big then us else drop_bit 8 us OR push_bit 8 us)"

definition SwapByteOrder32 :: "bool \<Rightarrow> bool \<Rightarrow> 32 word \<Rightarrow> 32 word" where
  "SwapByteOrder32 disk_big host_big us =
     (if disk_big = host_big then us
      else (drop_bit 24 us AND mask 8) OR (push_bit 8 us AND push_bit 16 (mask 8))
        OR (drop_bit 8 us AND push_bit 8 (mask 8)) OR (push_bit 24 us AND push_bit 24 (mask 8)))"

text \<open>
  \<open>Read0\<close> on a typed object: the bytes go to the object's storage, and the object is
  then read back in host order.
\<close>

definition Read0_16 :: "bool \<Rightarrow> istream \<Rightarrow> 16 word \<Rightarrow> bool \<times> 16 word \<times> istream" where
  "Read0_16 host_big s obj =
     (let (ok, m, s') = Read0 s (store16 host_big obj) in (ok, load16 host_big m, s'))"

definition Read0_32 :: "bool \<Rightarrow> istream \<Rightarrow> 32 word \<Rightarrow> bool \<times> 32 word \<times> istream" where
  "Read0_32 host_big s obj =
     (let (ok, m, s') = Read0 s (store32 host_big obj) in (ok, load32 host_big m, s'))"

text \<open>The primary template: every type without a specialisation.\<close>

definition ReadIntoObj :: "istream \<Rightarrow> byte list \<Rightarrow> bool \<times> byte list \<times> istream" where
  "ReadIntoObj s obj = Read0 s obj"

definition ReadIntoObj_int16 ::
  "bool \<Rightarrow> bool \<Rightarrow> istream \<Rightarrow> 16 word \<Rightarrow> bool \<times> 16 word \<times> istream" where
  "ReadIntoObj_int16 disk_big host_big s obj =
     (let (success, obj1, s') = Read0_16 host_big s obj;
          uobj = (ucast obj1 :: 16 word);
          uobj = SwapByteOrder16 disk_big host_big uobj
      in (success, ucast uobj, s'))"

definition ReadIntoObj_uint16 ::
  "bool \<Rightarrow> bool \<Rightarrow> istream \<Rightarrow> 16 word \<Rightarrow> bool \<times> 16 word \<times> istream" where
  "ReadIntoObj_uint16 disk_big host_big s obj =
     (let (success, obj1, s') = Read0_16 host_big s obj
      in (success, SwapByteOrder16 disk_big host_big obj1, s'))"

definition ReadIntoObj_int32 ::
  "bool \<Rightarrow> bool \<Rightarrow> istream \<Rightarrow> 32 word \<Rightarrow> bool \<times> 32 word \<times> istream" where
  "ReadIntoObj_int32 disk_big host_big s obj =
     (let (success, obj1, s') = Read0_32 host_big s obj;
          uobj = (ucast obj1 :: 32 word);
          uobj = SwapByteOrder32 disk_big host_big uobj
      in (success, ucast uobj, s'))"

definition ReadIntoObj_uint32 ::
  "bool \<Rightarrow> bool \<Rightarrow> istream \<Rightarrow> 32 word \<Rightarrow> bool \<times> 32 word \<times> istream" where
  "ReadIntoObj_uint32 disk_big host_big s obj =
     (let (success, obj1, s') = Read0_32 host_big s obj
      in (success, SwapByteOrder32 disk_big host_big obj1, s'))"

text \<open>
  The number of bytes a read of \<open>n\<close> bytes takes from the stream, and the storage of an
  object after they have been copied over its first bytes.
\<close>

definition bytes_taken :: "istream \<Rightarrow> nat \<Rightarrow> nat" where
  "bytes_taken s n = (if is_good s then min n (length (is_data s)) else 0)"

definition raw_copy :: "istream \<Rightarrow> byte list \<Rightarrow> byte list" where
  "raw_copy s obj =
     take (bytes_taken s (length obj)) (is_data s) @ drop (bytes_taken s (length obj)) obj"

definition example_stream :: istream where
  "example_stream = \<lparr>is_data = [0x34, 0x12, 0x78, 0x56, 0xbc], is_good = True, is_gcount = 0\<rparr>"

section \<open>Descriptors and system calls\<close>

text \<open>
  The kernel side of a descriptor opened for reading: the bytes of the file, the file
  offset, and whether \<open>read\<close> works on it at all (it does not on the descriptor of a
  directory, where it returns \<open>-1\<close>). \<open>sys_read\<close> is \<open>read(fd, buf, count)\<close>: it returns
  the result and the bytes stored at \<open>buf\<close>. \<open>sys_lseek\<close> is \<open>lseek(fd, offset, whence)\<close>,
  which fails with \<open>-1\<close> and leaves the offset alone when the target is negative.
\<close>

record descriptor =
  d_content :: "byte list"
  d_offset :: nat
  d_readable :: bool

datatype whence = SEEK_SET | SEEK_CUR | SEEK_END

datatype seekdir = ios_beg | ios_cur | ios_end

definition sys_read :: "descriptor \<Rightarrow> nat \<Rightarrow> int \<times> byte list \<times> descriptor" where
  "sys_read f count =
     (if \<not> d_readable f then (- 1, [], f)
      else let got = take count (drop (d_offset f) (d_content f))
           in (int (length got), got, f\<lparr>d_offset := d_offset f + length got\<rparr>))"

definition sys_lseek :: "descriptor \<Rightarrow> int \<Rightarrow> whence \<Rightarrow> int \<times> descriptor" where
  "sys_lseek f off w =
     (let base = (case w of SEEK_SET \<Rightarrow> 0 | SEEK_CUR \<Rightarrow> int (d_offset f)
                  | SEEK_END \<Rightarrow> int (length (d_content f)));
          target = base + off
      in if target < 0 then (- 1, f) else (target, f\<lparr>d_offset := nat target\<rparr>))"

definition CppSeekdirToCSeekdir :: "seekdir \<Rightarrow> whence" where
  "CppSeekdirToCSeekdir origin =
     (case origin of ios_beg \<Rightarrow> SEEK_SET | ios_cur \<Rightarrow> SEEK_CUR | ios_end \<Rightarrow> SEEK_END)"

text \<open>The calls a piece of code issues, in order: host bridge calls and system calls.\<close>

datatype call =
    JniGetHandleForPath string
  | JniIsFile | JniIsDirectory | JniExists | JniGetFilesize
  | JniCreateInputFileDescriptor
  | SysRead int nat
  | SysLseek int int whence
  | SysWrite int "byte list"
  | SysClose int

section \<open>FdStreamBufIn (filesystem\_saf.cpp)\<close>

text \<open>
  The object owns the descriptor \<open>fd\<close>, so the kernel state of that descriptor travels
  with it. \<open>eback\<close>, \<open>gptr\<close> and \<open>egptr\<close> are offsets from \<open>buffer.data()\<close>;
  \<open>buffer_start\<close> is offset 0 and \<open>buffer_end = &buffer.back()\<close> is offset 4095.
\<close>

definition buffer_size :: nat where
  "buffer_size = 4096"

definition buffer_start :: nat where
  "buffer_start = 0"

definition buffer_end :: nat where
  "buffer_end = buffer_size - 1"

definition traits_eof :: int where
  "traits_eof = - 1"

definition to_int_type :: "byte \<Rightarrow> int" where
  "to_int_type c = uint c"

record FdStreamBufIn =
  in_fd :: int
  in_desc :: descriptor
  in_buffer :: "byte list"
  in_eback :: nat
  in_gptr :: nat
  in_egptr :: nat
  in_calls :: "call list"
  in_log :: "string list"

definition setg :: "nat \<Rightarrow> nat \<Rightarrow> nat \<Rightarrow> FdStreamBufIn \<Rightarrow> FdStreamBufIn" where
  "setg gbeg gnext gend s = s\<lparr>in_eback := gbeg, in_gptr := gnext, in_egptr := gend\<rparr>"

definition FdStreamBufIn_ctor :: "int \<Rightarrow> descriptor \<Rightarrow> byte list \<Rightarrow> int \<Rightarrow> FdStreamBufIn" where
  "FdStreamBufIn_ctor fd desc buffer bytes_read =
     setg buffer_start buffer_start (buffer_start + nat bytes_read)
       \<lparr>in_fd = fd, in_desc = desc, in_buffer = buffer, in_eback = 0, in_gptr = 0,
        in_egptr = 0, in_calls = [], in_log = []\<rparr>"

definition underflow :: "FdStreamBufIn \<Rightarrow> int \<times> FdStreamBufIn" where
  "underflow s =
     (let (res, got, desc') = sys_read (in_desc s) buffer_size;
          s1 = s\<lparr>in_desc := desc', in_buffer := got @ drop (length got) (in_buffer s),
                 in_calls := in_calls s @ [SysRead (in_fd s) buffer_size]\<rparr>
      in if res = 0 then (traits_eof, s1)
         else if res < 0 then (traits_eof, s1\<lparr>in_log := in_log s1 @ [''underflow failed'']\<rparr>)
         else let s2 = setg buffer_start buffer_start (buffer_start + nat res) s1
              in (to_int_type (in_buffer s2 ! in_gptr s2), s2))"

definition seekoff :: "FdStreamBufIn \<Rightarrow> int \<Rightarrow> seekdir \<Rightarrow> int \<times> FdStreamBufIn" where
  "seekoff s offset dir =
     (let offset = (if dir = ios_cur then offset + (int (in_gptr s) - int (in_egptr s))
                    else offset);
          (res, desc') = sys_lseek (in_desc s) offset (CppSeekdirToCSeekdir dir);
          s1 = s\<lparr>in_desc := desc',
                 in_calls := in_calls s @ [SysLseek (in_fd s) offset (CppSeekdirToCSeekdir dir)]\<rparr>
      in (res, setg buffer_start buffer_end buffer_end s1))"

definition seekpos :: "FdStreamBufIn \<Rightarrow> int \<Rightarrow> int \<times> FdStreamBufIn" where
  "seekpos s pos = seekoff s pos ios_beg"

text \<open>
  The public get-area functions that \<open>std::streambuf\<close> provides on top of \<open>underflow\<close>:
  \<open>sgetc\<close> and \<open>sbumpc\<close> read from the get area while \<open>gptr() < egptr()\<close> and call
  \<open>underflow\<close> (through the default \<open>uflow\<close>) once the read pointer has reached its end.
  \<open>sgetn\<close> reads up to \<open>n\<close> characters one after the other.
\<close>

definition sgetc :: "FdStreamBufIn \<Rightarrow> int \<times> FdStreamBufIn" where
  "sgetc s =
     (if in_gptr s < in_egptr s then (to_int_type (in_buffer s ! in_gptr s), s)
      else underflow s)"

definition uflow :: "FdStreamBufIn \<Rightarrow> int \<times> FdStreamBufIn" where
  "uflow s =
     (let (c, s') = underflow s
      in if c = traits_eof then (traits_eof, s')
         else (to_int_type (in_buffer s' ! in_gptr s'), s'\<lparr>in_gptr := in_gptr s' + 1\<rparr>))"

definition sbumpc :: "FdStreamBufIn \<Rightarrow> int \<times> FdStreamBufIn" where
  "sbumpc s =
     (if in_gptr s < in_egptr s
      then (to_int_type (in_buffer s ! in_gptr s), s\<lparr>in_gptr := in_gptr s + 1\<rparr>)
      else uflow s)"

fun sgetn :: "FdStreamBufIn \<Rightarrow> nat \<Rightarrow> int list \<times> FdStreamBufIn" where
  "sgetn s 0 = ([], s)"
| "sgetn s (Suc n) =
     (let (c, s') = sbumpc s
      in if c = traits_eof then ([], s')
         else let (cs, s'') = sgetn s' n in (c # cs, s''))"

text \<open>
  The logical position of the stream: the descriptor's offset less the bytes that were
  read ahead into the buffer and not yet consumed.
\<close>

definition unread :: "FdStreamBufIn \<Rightarrow> int" where
  "unread s = int (in_egptr s) - int (in_gptr s)"

definition logical_pos :: "FdStreamBufIn \<Rightarrow> int" where
  "logical_pos s = int (d_offset (in_desc s)) - unread s"

text \<open>
  The buffered region mirrors the file: the unread bytes of the buffer are the bytes of
  the file from the logical position up to the descriptor's offset.
\<close>

definition window_ok :: "FdStreamBufIn \<Rightarrow> bool" where
  "window_ok s =
     (in_gptr s \<le> in_egptr s \<and> in_egptr s \<le> length (in_buffer s)
      \<and> nat (unread s) \<le> d_offset (in_desc s)
      \<and> d_offset (in_desc s) \<le> length (d_content (in_desc s))
      \<and> take (nat (unread s)) (drop (in_gptr s) (in_buffer s))
          = take (nat (unread s)) (drop (nat (logical_pos s)) (d_content (in_desc s))))"

section \<open>SafFilesystem (filesystem\_saf.cpp)\<close>

text \<open>
  The host side of the bridge. \<open>getHandleForPath\<close> returns a \<open>SafFile\<close> object or null
  (\<open>None\<close>); a \<open>SafFile\<close> answers the Java methods the C++ code calls. \<open>jboolean\<close> is an
  unsigned 8-bit value, \<open>jint\<close> and \<open>jlong\<close> are integers. \<open>kernel\<close> gives the kernel state
  behind a descriptor number. \<open>FileFinder::MakePath\<close> is not under src/ and is a parameter.
\<close>

record SafFile =
  sf_isFile :: byte
  sf_isDirectory :: byte
  sf_exists :: byte
  sf_getFilesize :: int
  sf_createInputFileDescriptor :: int

record jni_env =
  MakePath :: "string \<Rightarrow> string \<Rightarrow> string"
  getHandleForPath :: "string \<Rightarrow> SafFile option"
  kernel :: "int \<Rightarrow> descriptor"

record SafFilesystem =
  saf_path :: string

definition get_jni_handle ::
  "jni_env \<Rightarrow> SafFilesystem \<Rightarrow> string \<Rightarrow> SafFile option \<times> call list" where
  "get_jni_handle env fs path =
     (let combined_path = MakePath env (saf_path fs) path
      in (getHandleForPath env combined_path, [JniGetHandleForPath combined_path]))"

definition SafFilesystem_IsFile :: "jni_env \<Rightarrow> SafFilesystem \<Rightarrow> string \<Rightarrow> bool \<times> call list" where
  "SafFilesystem_IsFile env fs path =
     (case get_jni_handle env fs path of
        (None, cs) \<Rightarrow> (False, cs)
      | (Some obj, cs) \<Rightarrow> (let res = sf_isFile obj in (res > 0, cs @ [JniIsFile])))"

definition SafFilesystem_IsDirectory ::
  "jni_env \<Rightarrow> SafFilesystem \<Rightarrow> string \<Rightarrow> bool \<Rightarrow> bool \<times> call list" where
  "SafFilesystem_IsDirectory env fs dir follow_symlinks =
     (case get_jni_handle env fs dir of
        (None, cs) \<Rightarrow> (False, cs)
      | (Some obj, cs) \<Rightarrow> (let res = sf_isDirectory obj in (res > 0, cs @ [JniIsDirectory])))"

definition SafFilesystem_Exists :: "jni_env \<Rightarrow> SafFilesystem \<Rightarrow> string \<Rightarrow> bool \<times> call list" where
  "SafFilesystem_Exists env fs filename =
     (case get_jni_handle env fs filename of
        (None, cs) \<Rightarrow> (False, cs)
      | (Some obj, cs) \<Rightarrow> (let res = sf_exists obj in (res > 0, cs @ [JniExists])))"

definition SafFilesystem_GetFilesize ::
  "jni_env \<Rightarrow> SafFilesystem \<Rightarrow> string \<Rightarrow> int \<times> call list" where
  "SafFilesystem_GetFilesize env fs path =
     (case get_jni_handle env fs path of
        (None, cs) \<Rightarrow> (- 1, cs)
      | (Some obj, cs) \<Rightarrow> (let res = sf_getFilesize obj in (res, cs @ [JniGetFilesize])))"

text \<open>
  The result is the stream buffer (\<open>None\<close> for \<open>nullptr\<close>), the calls made and the debug
  lines logged. The local probe buffer is uninitialised in the source; here it starts
  out as zeros.
\<close>

definition SafFilesystem_CreateInputStreambuffer ::
  "jni_env \<Rightarrow> SafFilesystem \<Rightarrow> string \<Rightarrow> FdStreamBufIn option \<times> call list \<times> string list" where
  "SafFilesystem_CreateInputStreambuffer env fs path =
     (case get_jni_handle env fs path of
        (None, cs) \<Rightarrow> (None, cs, [])
      | (Some obj, cs) \<Rightarrow>
          (let fd = sf_createInputFileDescriptor obj;
               cs = cs @ [JniCreateInputFileDescriptor]
           in if fd < 0 then (None, cs, [])
              else let buffer = replicate buffer_size 0;
                       (bytes_read, got, desc') = sys_read (kernel env fd) buffer_size;
                       buffer = got @ drop (length got) buffer;
                       cs = cs @ [SysRead fd buffer_size]
                   in if bytes_read < 0 then (None, cs @ [SysClose fd], [''read failed''])
                      else (Some (FdStreamBufIn_ctor fd desc' buffer bytes_read), cs, [])))"

text \<open>The bytes the probe read of stream creation obtains from a readable descriptor.\<close>

definition probe_bytes :: "descriptor \<Rightarrow> byte list" where
  "probe_bytes f = take buffer_size (drop (d_offset f) (d_content f))"

text \<open>
  Example host: \<open>save.lsd\<close> is a ten-byte file behind descriptor 3; for \<open>missing.lsd\<close> the
  host hands out a handle although nothing exists there, and its descriptor 4 is that of
  a directory; for \<open>denied.lsd\<close> it hands out a handle that yields no descriptor; every
  other path resolves to no handle.
\<close>

definition example_file :: descriptor where
  "example_file =
     \<lparr>d_content = [10, 20, 30, 40, 50, 60, 70, 80, 90, 100], d_offset = 0, d_readable = True\<rparr>"

definition example_dir :: descriptor where
  "example_dir = \<lparr>d_content = [], d_offset = 0, d_readable = False\<rparr>"

definition example_env :: jni_env where
  "example_env =
     \<lparr>MakePath = (\<lambda>a b. a @ ''/'' @ b),
      getHandleForPath = (\<lambda>p.
        if p = ''content://tree/save.lsd''
        then Some \<lparr>sf_isFile = 1, sf_isDirectory = 0, sf_exists = 1, sf_getFilesize = 10,
                   sf_createInputFileDescriptor = 3\<rparr>
        else if p = ''content://tree/missing.lsd''
        then Some \<lparr>sf_isFile = 0, sf_isDirectory = 0, sf_exists = 0, sf_getFilesize = 0,
                   sf_createInputFileDescriptor = 4\<rparr>
        else if p = ''content://tree/denied.lsd''
        then Some \<lparr>sf_isFile = 0, sf_isDirectory = 0, sf_exists = 0, sf_getFilesize = 0,
                   sf_createInputFileDescriptor = - 1\<rparr>
        else None),
      kernel = (\<lambda>fd. if fd = 3 then example_file else example_dir)\<rparr>"

definition example_fs :: SafFilesystem where
  "example_fs = \<lparr>saf_path = ''content://tree''\<rparr>"

text \<open>
  The stream over \<open>save.lsd\<close> after its ten bytes were read ahead and two of them were
  consumed, the same stream at the end of its window, and a stream over the directory
  descriptor.
\<close>

definition example_in :: FdStreamBufIn where
  "example_in =
     \<lparr>in_fd = 3, in_desc = example_file\<lparr>d_offset := 10\<rparr>,
      in_buffer = d_content example_file @ replicate 4086 0,
      in_eback = 0, in_gptr = 2, in_egptr = 10, in_calls = [], in_log = []\<rparr>"

definition example_in_start :: FdStreamBufIn where
  "example_in_start =
     \<lparr>in_fd = 3, in_desc = example_file, in_buffer = replicate 4096 0,
      in_eback = 0, in_gptr = 0, in_egptr = 0, in_calls = [], in_log = []\<rparr>"

definition example_in_dir :: FdStreamBufIn where
  "example_in_dir =
     \<lparr>in_fd = 4, in_desc = example_dir, in_buffer = replicate 4096 0,
      in_eback = 0, in_gptr = 0, in_egptr = 0, in_calls = [], in_log = []\<rparr>"

section \<open>NativeFilesystem (filesystem\_native.cpp)\<close>

text \<open>
  The local file tree: a path names a regular file, a directory or a symbolic link, or
  nothing. A directory carries what reading it yields, entry names with the type the
  directory entry reports, the pseudo-entries included. \<open>sys_lstat\<close> looks at the path
  itself; \<open>sys_stat\<close> follows symbolic links, giving up after 40 of them.
\<close>

datatype FileType = File | Directory | Other | Unknown

datatype node =
    RegularFile "byte list"
  | DirectoryNode "(string \<times> FileType) list"
  | SymlinkTo string

type_synonym local_fs = "string \<Rightarrow> node option"

primrec resolve :: "nat \<Rightarrow> local_fs \<Rightarrow> string \<Rightarrow> node option" where
  "resolve 0 t p = (case t p of Some (SymlinkTo q) \<Rightarrow> None | r \<Rightarrow> r)"
| "resolve (Suc n) t p = (case t p of Some (SymlinkTo q) \<Rightarrow> resolve n t q | r \<Rightarrow> r)"

definition sys_stat :: "local_fs \<Rightarrow> string \<Rightarrow> node option" where
  "sys_stat t p = resolve 40 t p"

definition sys_lstat :: "local_fs \<Rightarrow> string \<Rightarrow> node option" where
  "sys_lstat t p = t p"

text \<open>
  \<open>open(path, O_RDONLY)\<close> gives a descriptor number, or \<open>-1\<close> when the path resolves to
  nothing; \<open>std::filebuf::open\<close> succeeds when that open does.
\<close>

definition sys_open_rdonly :: "local_fs \<Rightarrow> string \<Rightarrow> int" where
  "sys_open_rdonly t p = (case sys_stat t p of None \<Rightarrow> - 1 | Some n \<Rightarrow> 3)"

definition filebuf_is_open :: "local_fs \<Rightarrow> string \<Rightarrow> bool" where
  "filebuf_is_open t p = (0 \<le> sys_open_rdonly t p)"

text \<open>
  Modelled from the spec: \<open>Platform::File\<close> and \<open>Platform::Directory\<close> (platform.h and
  platform.cpp, not under src/). The spec says that the native backend "resolves paths
  directly against the local filesystem" and that a query on a missing path returns
  \<open>false\<close> or \<open>-1\<close> and never raises; the directory probe follows symbolic links when asked
  to. A directory that cannot be opened is \<open>None\<close>.
\<close>

definition Platform_File_GetType :: "local_fs \<Rightarrow> string \<Rightarrow> bool \<Rightarrow> FileType" where
  "Platform_File_GetType t p follow_symlinks =
     (case (if follow_symlinks then sys_stat t p else sys_lstat t p) of
        None \<Rightarrow> Unknown
      | Some (RegularFile b) \<Rightarrow> File
      | Some (DirectoryNode es) \<Rightarrow> Directory
      | Some (SymlinkTo q) \<Rightarrow> Other)"

definition Platform_File_IsFile :: "local_fs \<Rightarrow> string \<Rightarrow> bool \<Rightarrow> bool" where
  "Platform_File_IsFile t p follow_symlinks = (Platform_File_GetType t p follow_symlinks = File)"

definition Platform_File_IsDirectory :: "local_fs \<Rightarrow> string \<Rightarrow> bool \<Rightarrow> bool" where
  "Platform_File_IsDirectory t p follow_symlinks =
     (Platform_File_GetType t p follow_symlinks = Directory)"

definition Platform_File_Exists :: "local_fs \<Rightarrow> string \<Rightarrow> bool" where
  "Platform_File_Exists t p = (sys_stat t p \<noteq> None)"

definition Platform_File_GetSize :: "local_fs \<Rightarrow> string \<Rightarrow> int" where
  "Platform_File_GetSize t p =
     (case sys_stat t p of
        None \<Rightarrow> - 1
      | Some (RegularFile b) \<Rightarrow> int (length b)
      | Some n \<Rightarrow> 0)"

definition Platform_Directory :: "local_fs \<Rightarrow> string \<Rightarrow> (string \<times> FileType) list option" where
  "Platform_Directory t p =
     (case sys_stat t p of Some (DirectoryNode es) \<Rightarrow> Some es | r \<Rightarrow> None)"

text \<open>The methods of \<open>NativeFilesystem\<close>; \<open>ToString\<close> is the identity on paths.\<close>

definition NativeFilesystem_IsFile :: "local_fs \<Rightarrow> string \<Rightarrow> bool" where
  "NativeFilesystem_IsFile t path = Platform_File_IsFile t path False"

definition NativeFilesystem_IsDirectory :: "local_fs \<Rightarrow> string \<Rightarrow> bool \<Rightarrow> bool" where
  "NativeFilesystem_IsDirectory t dir follow_symlinks =
     Platform_File_IsDirectory t dir follow_symlinks"

definition NativeFilesystem_Exists :: "local_fs \<Rightarrow> string \<Rightarrow> bool" where
  "NativeFilesystem_Exists t filename = Platform_File_Exists t filename"

definition NativeFilesystem_GetFilesize :: "local_fs \<Rightarrow> string \<Rightarrow> int" where
  "NativeFilesystem_GetFilesize t path = Platform_File_GetSize t path"

text \<open>
  The stream buffer is a \<open>Filesystem_Stream::FdStreamBuf\<close> when \<open>USE_CUSTOM_FILEBUF\<close> is
  defined and a \<open>std::filebuf\<close> otherwise; \<open>None\<close> is \<open>nullptr\<close>.
\<close>

datatype native_streambuf = FdStreamBuf int bool | FileBuf string

definition NativeFilesystem_CreateInputStreambuffer ::
  "bool \<Rightarrow> local_fs \<Rightarrow> string \<Rightarrow> native_streambuf option" where
  "NativeFilesystem_CreateInputStreambuffer use_custom_filebuf t path =
     (if use_custom_filebuf
      then (let fd = sys_open_rdonly t path
            in if fd < 0 then None else Some (FdStreamBuf fd True))
      else (if \<not> filebuf_is_open t path then None else Some (FileBuf path)))"

datatype DirectoryTree_FileType = Regular | DirectoryEntry

type_synonym Entry = "string \<times> DirectoryTree_FileType"

text \<open>The body of the loop \<open>while (dir.Read())\<close>, over the entries still to be read.\<close>

fun read_entries :: "local_fs \<Rightarrow> (string \<times> FileType) list \<Rightarrow> Entry list \<Rightarrow> Entry list" where
  "read_entries t [] entries = entries"
| "read_entries t ((name, type) # rest) entries =
     (if name = ''.'' \<or> name = ''..'' then read_entries t rest entries
      else let is_directory = False;
               is_directory =
                 (if type = Directory then True
                  else if type = Unknown then NativeFilesystem_IsDirectory t name True
                  else is_directory)
           in read_entries t rest
                (entries @ [(name, if is_directory then DirectoryEntry else Regular)]))"

definition NativeFilesystem_GetDirectoryContent ::
  "local_fs \<Rightarrow> string \<Rightarrow> Entry list \<Rightarrow> bool \<times> Entry list \<times> string list" where
  "NativeFilesystem_GetDirectoryContent t path entries =
     (case Platform_Directory t path of
        None \<Rightarrow> (False, entries, [''Error opening dir''])
      | Some es \<Rightarrow> (True, read_entries t es entries, []))"

text \<open>
  Example tree: the directory \<open>games\<close> holds a map file, the directories \<open>Picture\<close> and
  \<open>Music\<close> and an ini file; reading it reports no type for \<open>Picture\<close> and \<open>RPG_RT.ini\<close>.
  Paths are resolved against the working directory, which holds \<open>games\<close> and nothing else.
\<close>

definition example_tree :: local_fs where
  "example_tree =
     (\<lambda>p. if p = ''games''
           then Some (DirectoryNode [(''.'', Directory), (''..'', Directory),
                  (''Map0001.lmu'', File), (''Picture'', Unknown), (''Music'', Directory),
                  (''RPG_RT.ini'', Unknown)])
           else if p = ''games/Picture'' then Some (DirectoryNode [])
           else if p = ''games/Music'' then Some (DirectoryNode [])
           else if p = ''games/RPG_RT.ini'' then Some (RegularFile [1, 2, 3])
           else if p = ''games/Map0001.lmu'' then Some (RegularFile [])
           else None)"

section \<open>FdStreamBufOut (filesystem\_saf.cpp)\<close>

text \<open>
  The kernel side of a descriptor opened for writing: the bytes accepted so far and how
  the backend will answer the coming \<open>write\<close> calls. An entry of \<open>o_accept\<close> is the
  number of bytes the next call accepts at most, or a negative number for an error; when
  the list is used up every write is accepted in full. \<open>sys_write\<close> is
  \<open>write(fd, buf, len)\<close>.
\<close>

record out_descriptor =
  o_written :: "byte list"
  o_accept :: "int list"
  o_closed :: bool

definition sys_write :: "out_descriptor \<Rightarrow> byte list \<Rightarrow> int \<times> out_descriptor" where
  "sys_write f bytes =
     (case o_accept f of
        [] \<Rightarrow> (int (length bytes), f\<lparr>o_written := o_written f @ bytes\<rparr>)
      | r # rs \<Rightarrow>
          if r < 0 then (- 1, f\<lparr>o_accept := rs\<rparr>)
          else (int (min (nat r) (length bytes)),
                f\<lparr>o_written := o_written f @ take (min (nat r) (length bytes)) bytes,
                  o_accept := rs\<rparr>))"

definition sys_close :: "out_descriptor \<Rightarrow> out_descriptor" where
  "sys_close f = f\<lparr>o_closed := True\<rparr>"

text \<open>
  \<open>pbase\<close>, \<open>pptr\<close> and \<open>epptr\<close> are offsets from \<open>buffer.data()\<close>. The buffer is
  uninitialised in the source; here it starts out as zeros.
\<close>

record FdStreamBufOut =
  out_fd :: int
  out_desc :: out_descriptor
  out_buffer :: "byte list"
  out_pbase :: nat
  out_pptr :: nat
  out_epptr :: nat
  out_calls :: "call list"

definition setp :: "nat \<Rightarrow> nat \<Rightarrow> FdStreamBufOut \<Rightarrow> FdStreamBufOut" where
  "setp pbeg pend s = s\<lparr>out_pbase := pbeg, out_pptr := pbeg, out_epptr := pend\<rparr>"

definition FdStreamBufOut_ctor :: "int \<Rightarrow> out_descriptor \<Rightarrow> FdStreamBufOut" where
  "FdStreamBufOut_ctor fd desc =
     setp buffer_start buffer_end
       \<lparr>out_fd = fd, out_desc = desc, out_buffer = replicate buffer_size 0,
        out_pbase = 0, out_pptr = 0, out_epptr = 0, out_calls = []\<rparr>"

text \<open>The bytes between \<open>pbase()\<close> and \<open>pptr()\<close>: written to the stream, not yet flushed.\<close>

definition pending :: "FdStreamBufOut \<Rightarrow> byte list" where
  "pending s = take (out_pptr s - out_pbase s) (drop (out_pbase s) (out_buffer s))"

definition sync :: "FdStreamBufOut \<Rightarrow> int \<times> FdStreamBufOut" where
  "sync s =
     (let len = int (out_pptr s) - int (out_pbase s)
      in if len = 0 then (0, s)
         else let (res, desc') = sys_write (out_desc s) (pending s);
                  s1 = s\<lparr>out_desc := desc',
                         out_calls := out_calls s @ [SysWrite (out_fd s) (pending s)]\<rparr>;
                  s2 = setp buffer_start buffer_end s1
              in if res < len then (- 1, s2) else (0, s2))"

definition overflow :: "FdStreamBufOut \<Rightarrow> int \<Rightarrow> int \<times> FdStreamBufOut" where
  "overflow s c =
     (let (r, s1) = sync s
      in if r < 0 then (traits_eof, s1)
         else if c \<noteq> traits_eof
         then let a = (word_of_int c :: byte);
                  (res, desc') = sys_write (out_desc s1) [a];
                  s2 = s1\<lparr>out_desc := desc',
                          out_calls := out_calls s1 @ [SysWrite (out_fd s1) [a]]\<rparr>
              in if res < 1 then (traits_eof, s2) else (c, s2)
         else (c, s1))"

definition FdStreamBufOut_dtor :: "FdStreamBufOut \<Rightarrow> FdStreamBufOut" where
  "FdStreamBufOut_dtor s =
     (let (r, s1) = sync s
      in s1\<lparr>out_desc := sys_close (out_desc s1),
            out_calls := out_calls s1 @ [SysClose (out_fd s1)]\<rparr>)"

text \<open>
  The public put-area functions of \<open>std::streambuf\<close>: \<open>sputc\<close> stores the character while
  \<open>pptr() < epptr()\<close> and calls \<open>overflow\<close> otherwise; \<open>sputn\<close> puts the characters one
  after the other and stops at the first failure, returning the number put.
\<close>

definition sputc :: "FdStreamBufOut \<Rightarrow> byte \<Rightarrow> int \<times> FdStreamBufOut" where
  "sputc s c =
     (if out_pptr s < out_epptr s
      then (to_int_type c,
            s\<lparr>out_buffer := (out_buffer s)[out_pptr s := c], out_pptr := out_pptr s + 1\<rparr>)
      else overflow s (to_int_type c))"

fun sputn :: "FdStreamBufOut \<Rightarrow> byte list \<Rightarrow> nat \<times> FdStreamBufOut" where
  "sputn s [] = (0, s)"
| "sputn s (c # cs) =
     (let (r, s') = sputc s c
      in if r = traits_eof then (0, s')
         else let (n, s'') = sputn s' cs in (Suc n, s''))"

text \<open>
  The put area lies inside the buffer. The constructor establishes this and every
  operation keeps it.
\<close>

definition out_ok :: "FdStreamBufOut \<Rightarrow> bool" where
  "out_ok s =
     (out_pbase s \<le> out_pptr s \<and> out_pptr s \<le> out_epptr s
      \<and> out_epptr s \<le> buffer_end \<and> length (out_buffer s) = buffer_size)"

text \<open>Everything handed to the stream so far: the bytes accepted and the bytes pending.\<close>

definition handed :: "FdStreamBufOut \<Rightarrow> byte list" where
  "handed s = o_written (out_desc s) @ pending s"

text \<open>
  A stream with three bytes written and not yet flushed, over a backend that accepts
  one byte of the next write and everything afterwards.
\<close>

definition example_out :: FdStreamBufOut where
  "example_out =
     \<lparr>out_fd = 5, out_desc = \<lparr>o_written = [], o_accept = [1], o_closed = False\<rparr>,
      out_buffer = [1, 2, 3] @ replicate 4093 0, out_pbase = 0, out_pptr = 3,
      out_epptr = 4095, out_calls = []\<rparr>"

text \<open>The same stream over a backend that accepts everything.\<close>

definition example_out_accepting :: FdStreamBufOut where
  "example_out_accepting =
     example_out\<lparr>out_desc := \<lparr>o_written = [], o_accept = [], o_closed = False\<rparr>\<rparr>"

section \<open>OutputStream (filesystem\_stream.h)\<close>

text \<open>
  \<open>Filesystem_Stream::OutputStream\<close> is a \<open>std::ostream\<close> over the stream buffer the backend
  hands out; the buffer is reached through it only. Of the \<open>std::ostream\<close> state this
  keeps \<open>badbit\<close> and \<open>failbit\<close>. Every output function first constructs a sentry, which
  sets \<open>failbit\<close> and lets nothing through when the stream is not good. \<open>put\<close> calls
  \<open>sputc\<close>, \<open>write\<close> calls \<open>sputn\<close> and \<open>flush\<close> calls \<open>pubsync\<close>, that is \<open>sync\<close>; each
  sets \<open>badbit\<close> when the buffer reports failure.
\<close>

record OutputStream =
  os_rdbuf :: FdStreamBufOut
  os_badbit :: bool
  os_failbit :: bool

definition good :: "OutputStream \<Rightarrow> bool" where
  "good os = (\<not> os_badbit os \<and> \<not> os_failbit os)"

definition sentry :: "OutputStream \<Rightarrow> bool \<times> OutputStream" where
  "sentry os = (if good os then (True, os) else (False, os\<lparr>os_failbit := True\<rparr>))"

definition ostream_put :: "OutputStream \<Rightarrow> byte \<Rightarrow> OutputStream" where
  "ostream_put os c =
     (let (ok, os1) = sentry os
      in if \<not> ok then os1
         else let (r, b) = sputc (os_rdbuf os1) c
              in os1\<lparr>os_rdbuf := b, os_badbit := (os_badbit os1 \<or> r = traits_eof)\<rparr>)"

definition ostream_write :: "OutputStream \<Rightarrow> byte list \<Rightarrow> OutputStream" where
  "ostream_write os bs =
     (let (ok, os1) = sentry os
      in if \<not> ok then os1
         else let (n, b) = sputn (os_rdbuf os1) bs
              in os1\<lparr>os_rdbuf := b, os_badbit := (os_badbit os1 \<or> n \<noteq> length bs)\<rparr>)"

definition ostream_flush :: "OutputStream \<Rightarrow> OutputStream" where
  "ostream_flush os =
     (let (ok, os1) = sentry os
      in if \<not> ok then os1
         else let (r, b) = sync (os_rdbuf os1)
              in os1\<lparr>os_rdbuf := b, os_badbit := (os_badbit os1 \<or> r = - 1)\<rparr>)"

text \<open>A sequence of output operations on a stream, run one after the other.\<close>

datatype os_op = Put byte | Write "byte list" | Flush

fun run_op :: "OutputStream \<Rightarrow> os_op \<Rightarrow> OutputStream" where
  "run_op os (Put c) = ostream_put os c"
| "run_op os (Write bs) = ostream_write os bs"
| "run_op os Flush = ostream_flush os"

fun run_ops :: "OutputStream \<Rightarrow> os_op list \<Rightarrow> OutputStream" where
  "run_ops os [] = os"
| "run_ops os (x # xs) = run_ops (run_op os x) xs"

text \<open>The bytes an operation asks the stream to write.\<close>

fun op_bytes :: "os_op \<Rightarrow> byte list" where
  "op_bytes (Put c) = [c]"
| "op_bytes (Write bs) = bs"
| "op_bytes Flush = []"

text \<open>
  Streams over \<open>example_out\<close> and over the same buffer with an accepting backend, and two
  streams whose writeback buffer is full (4095 bytes pending): the backend of the first
  accepts one byte of the next write, that of the second accepts the next write in full
  and nothing of the write after it.
\<close>

definition example_os :: OutputStream where
  "example_os = \<lparr>os_rdbuf = example_out, os_badbit = False, os_failbit = False\<rparr>"

definition example_os_accepting :: OutputStream where
  "example_os_accepting =
     \<lparr>os_rdbuf = example_out_accepting, os_badbit = False, os_failbit = False\<rparr>"

definition example_full :: "int list \<Rightarrow> FdStreamBufOut" where
  "example_full accept =
     \<lparr>out_fd = 5, out_desc = \<lparr>o_written = [], o_accept = accept, o_closed = False\<rparr>,
      out_buffer = replicate 4096 9, out_pbase = 0, out_pptr = 4095, out_epptr = 4095,
      out_calls = []\<rparr>"

definition example_os_full :: OutputStream where
  "example_os_full = \<lparr>os_rdbuf = example_full [1], os_badbit = False, os_failbit = False\<rparr>"

definition example_os_stalling :: OutputStream where
  "example_os_stalling =
     \<lparr>os_rdbuf = example_full [4095, 0], os_badbit = False, os_failbit = False\<rparr>"

section \<open>Theorems\<close>

text \<open>
  C10. For every configuration parameter and every value \<open>v\<close>, \<open>Set(v)\<close> returns true and
  afterwards \<open>Get()\<close> equals \<open>v\<close> exactly when the parameter is unlocked, its option is
  visible and \<open>v\<close> satisfies the validity predicate; in every other case \<open>Set(v)\<close> returns
  false and \<open>Get()\<close> returns the value it returned before the call.
\<close>

theorem Set_accepts_iff:
  "(fst (Set p v) \<and> Get (snd (Set p v)) = v)
      = (\<not> IsLocked p \<and> IsOptionVisible p \<and> cp_vIsValid p v)
   \<and> (\<not> (\<not> IsLocked p \<and> IsOptionVisible p \<and> cp_vIsValid p v)
        \<longrightarrow> \<not> fst (Set p v) \<and> Get (snd (Set p v)) = Get p)"
  by (simp add: Set_def IsValid_def Get_def)

theorem Set_accepts_iff_witness:
  "\<not> (\<not> IsLocked (RangeConfigParam 3 0 10) \<and> IsOptionVisible (RangeConfigParam 3 0 10)
        \<and> cp_vIsValid (RangeConfigParam 3 0 10) 50)
   \<and> \<not> fst (Set (RangeConfigParam 3 0 10) 50)
   \<and> Get (snd (Set (RangeConfigParam 3 0 10) 50)) = 3
   \<and> fst (Set (RangeConfigParam 3 0 10) 7)
   \<and> Get (snd (Set (RangeConfigParam 3 0 10) 7)) = 7"
  using Set_accepts_iff [of "RangeConfigParam 3 0 10" 50]
    Set_accepts_iff [of "RangeConfigParam 3 0 10" 7]
  by (simp add: RangeConfigParam_def Range_vIsValid_def IsLocked_def IsOptionVisible_def Get_def)

subsection \<open>Typed reads\<close>

lemma byte_bit: "bit (x :: byte) n \<Longrightarrow> n < 8"
  using bit_imp_le_length [of x n] by simp

lemma bit_cat16:
  "bit (cat16 a b) n = (if n < 8 then bit b n else bit a (n - 8))"
  unfolding cat16_def by (auto simp add: bit_simps dest: byte_bit)

lemma ucast_cat16:
  "ucast (cat16 a b) = b" "ucast (drop_bit 8 (cat16 a b)) = a"
  by (rule bit_word_eqI, auto simp add: bit_simps bit_cat16 dest: byte_bit)+

lemma bswap16_cat:
  "drop_bit 8 (cat16 x y) OR push_bit 8 (cat16 x y) = cat16 y x"
  by (rule bit_word_eqI) (auto simp add: bit_simps bit_cat16 dest: byte_bit)

lemma Swap16_load: "SwapByteOrder16 d h (load16 h m) = load16 d m"
  by (cases d; cases h) (simp_all add: SwapByteOrder16_def load16_def bswap16_cat)

lemma length2: "length m = 2 \<Longrightarrow> \<exists>x y. m = [x, y]"
  by (cases m; cases "tl m") auto

lemma length4: "length m = 4 \<Longrightarrow> \<exists>a b c d. m = [a, b, c, d]"
  by (cases m; cases "tl m"; cases "tl (tl m)"; cases "tl (tl (tl m))") auto

lemma store16_load16:
  assumes "length m = 2"
  shows "store16 h (load16 d m) = (if d = h then m else rev m)"
proof -
  from assms obtain x y where m: "m = [x, y]" using length2 by blast
  show ?thesis
    by (cases d; cases h) (simp_all add: m store16_def load16_def ucast_cat16)
qed

lemma bit_cat32:
  "bit (cat32 a b c d) n =
     (if n < 8 then bit d n else if n < 16 then bit c (n - 8)
      else if n < 24 then bit b (n - 16) else bit a (n - 24))"
  unfolding cat32_def by (auto simp add: bit_simps dest: byte_bit)

lemma bswap32_cat:
  "(drop_bit 24 (cat32 a b c d) AND mask 8) OR (push_bit 8 (cat32 a b c d) AND push_bit 16 (mask 8))
     OR (drop_bit 8 (cat32 a b c d) AND push_bit 8 (mask 8))
     OR (push_bit 24 (cat32 a b c d) AND push_bit 24 (mask 8)) = cat32 d c b a"
  apply (rule bit_word_eqI)
  apply (simp add: bit_simps bit_cat32)
  apply (auto dest: byte_bit)
  done

lemma ucast_cat32:
  "ucast (cat32 a b c d) = d" "ucast (drop_bit 8 (cat32 a b c d)) = c"
  "ucast (drop_bit 16 (cat32 a b c d)) = b" "ucast (drop_bit 24 (cat32 a b c d)) = a"
  by (rule bit_word_eqI, auto simp add: bit_simps bit_cat32 dest: byte_bit)+

lemma Swap32_load: "SwapByteOrder32 d h (load32 h m) = load32 d m"
  by (cases d; cases h) (simp_all add: SwapByteOrder32_def load32_def bswap32_cat)

lemma store32_load32:
  assumes "length m = 4"
  shows "store32 h (load32 d m) = (if d = h then m else rev m)"
proof -
  from assms obtain a b c e where m: "m = [a, b, c, e]" using length4 by blast
  show ?thesis
    by (cases d; cases h) (simp_all add: m store32_def load32_def ucast_cat32)
qed

lemma Read0_eq:
  "Read0 s obj =
     (bytes_taken s (length obj) = length obj, raw_copy s obj,
      s\<lparr>is_data := drop (bytes_taken s (length obj)) (is_data s),
        is_good := (is_good s \<and> length obj \<le> length (is_data s)),
        is_gcount := bytes_taken s (length obj)\<rparr>)"
  by (auto simp add: Read0_def istream_read_def bytes_taken_def raw_copy_def Let_def min_def)

lemma length_raw_copy: "length (raw_copy s obj) = length obj"
  by (simp add: raw_copy_def bytes_taken_def)

lemma raw_copy_full:
  "bytes_taken s (length obj) = length obj \<Longrightarrow> raw_copy s obj = take (length obj) (is_data s)"
  by (simp add: raw_copy_def)

lemma length_store16: "length (store16 h v) = 2"
  by (simp add: store16_def)

lemma length_store32: "length (store32 h v) = 4"
  by (simp add: store32_def)

lemma ReadIntoObj_uint16_eq:
  "ReadIntoObj_uint16 d h s v =
     (bytes_taken s 2 = 2, load16 d (raw_copy s (store16 h v)),
      s\<lparr>is_data := drop (bytes_taken s 2) (is_data s),
        is_good := (is_good s \<and> 2 \<le> length (is_data s)), is_gcount := bytes_taken s 2\<rparr>)"
  by (simp add: ReadIntoObj_uint16_def Read0_16_def Read0_eq length_store16 Swap16_load)

lemma ReadIntoObj_int16_eq: "ReadIntoObj_int16 d h s v = ReadIntoObj_uint16 d h s v"
  by (simp add: ReadIntoObj_int16_def ReadIntoObj_uint16_def Let_def split: prod.splits)

lemma ReadIntoObj_uint32_eq:
  "ReadIntoObj_uint32 d h s v =
     (bytes_taken s 4 = 4, load32 d (raw_copy s (store32 h v)),
      s\<lparr>is_data := drop (bytes_taken s 4) (is_data s),
        is_good := (is_good s \<and> 4 \<le> length (is_data s)), is_gcount := bytes_taken s 4\<rparr>)"
  by (simp add: ReadIntoObj_uint32_def Read0_32_def Read0_eq length_store32 Swap32_load)

lemma ReadIntoObj_int32_eq: "ReadIntoObj_int32 d h s v = ReadIntoObj_uint32 d h s v"
  by (simp add: ReadIntoObj_int32_def ReadIntoObj_uint32_def Let_def split: prod.splits)


lemma ReadIntoObj16_mem:
  "store16 h (load16 d (raw_copy s (store16 h v)))
     = (if d = h then raw_copy s (store16 h v) else rev (raw_copy s (store16 h v)))"
  by (rule store16_load16) (simp add: length_raw_copy length_store16)

lemma ReadIntoObj32_mem:
  "store32 h (load32 d (raw_copy s (store32 h v)))
     = (if d = h then raw_copy s (store32 h v) else rev (raw_copy s (store32 h v)))"
  by (rule store32_load32) (simp add: length_raw_copy length_store32)

lemma raw_copy_full16:
  "bytes_taken s 2 = 2 \<Longrightarrow> raw_copy s (store16 h v) = take 2 (is_data s)"
  using raw_copy_full [of s "store16 h v"] by (simp add: length_store16)

lemma raw_copy_full32:
  "bytes_taken s 4 = 4 \<Longrightarrow> raw_copy s (store32 h v) = take 4 (is_data s)"
  using raw_copy_full [of s "store32 h v"] by (simp add: length_store32)

text \<open>
  C1. \<open>ReadIntoObj<T>\<close> reads \<open>sizeof(T)\<close> raw bytes; for \<open>int16_t\<close>, \<open>uint16_t\<close>,
  \<open>int32_t\<close> and \<open>uint32_t\<close> (and only for them) the value is converted from the on-disk
  byte order to host order, so the object's storage holds the raw bytes when the two
  orders agree and the reversed bytes otherwise, and after a full read the value is the
  on-disk-order reading of the bytes taken from the stream. For every other type the
  storage is the raw copy. The result is true if and only if all \<open>sizeof(T)\<close> bytes were
  read; a short read overwrites only the first bytes of the storage.
\<close>

theorem ReadIntoObj_reads_and_converts:
  "fst (ReadIntoObj s obj) = (bytes_taken s (length obj) = length obj)
   \<and> fst (snd (ReadIntoObj s obj)) = raw_copy s obj
   \<and> is_gcount (snd (snd (ReadIntoObj s obj))) = bytes_taken s (length obj)
   \<and> is_data (snd (snd (ReadIntoObj s obj))) = drop (bytes_taken s (length obj)) (is_data s)
   \<and> ReadIntoObj_int16 d h s v = ReadIntoObj_uint16 d h s v
   \<and> fst (ReadIntoObj_uint16 d h s v) = (bytes_taken s 2 = 2)
   \<and> is_gcount (snd (snd (ReadIntoObj_uint16 d h s v))) = bytes_taken s 2
   \<and> store16 h (fst (snd (ReadIntoObj_uint16 d h s v)))
        = (if d = h then raw_copy s (store16 h v) else rev (raw_copy s (store16 h v)))
   \<and> (bytes_taken s 2 = 2
        \<longrightarrow> fst (snd (ReadIntoObj_uint16 d h s v)) = load16 d (take 2 (is_data s)))
   \<and> ReadIntoObj_int32 d h s w = ReadIntoObj_uint32 d h s w
   \<and> fst (ReadIntoObj_uint32 d h s w) = (bytes_taken s 4 = 4)
   \<and> is_gcount (snd (snd (ReadIntoObj_uint32 d h s w))) = bytes_taken s 4
   \<and> store32 h (fst (snd (ReadIntoObj_uint32 d h s w)))
        = (if d = h then raw_copy s (store32 h w) else rev (raw_copy s (store32 h w)))
   \<and> (bytes_taken s 4 = 4
        \<longrightarrow> fst (snd (ReadIntoObj_uint32 d h s w)) = load32 d (take 4 (is_data s)))"
proof -
  have g: "ReadIntoObj s obj =
     (bytes_taken s (length obj) = length obj, raw_copy s obj,
      s\<lparr>is_data := drop (bytes_taken s (length obj)) (is_data s),
        is_good := (is_good s \<and> length obj \<le> length (is_data s)),
        is_gcount := bytes_taken s (length obj)\<rparr>)"
    by (simp only: ReadIntoObj_def Read0_eq)
  have m16: "store16 h (fst (snd (ReadIntoObj_uint16 d h s v)))
        = (if d = h then raw_copy s (store16 h v) else rev (raw_copy s (store16 h v)))"
    by (simp only: ReadIntoObj_uint16_eq fst_conv snd_conv ReadIntoObj16_mem)
  have m32: "store32 h (fst (snd (ReadIntoObj_uint32 d h s w)))
        = (if d = h then raw_copy s (store32 h w) else rev (raw_copy s (store32 h w)))"
    by (simp only: ReadIntoObj_uint32_eq fst_conv snd_conv ReadIntoObj32_mem)
  have v16: "bytes_taken s 2 = 2
        \<longrightarrow> fst (snd (ReadIntoObj_uint16 d h s v)) = load16 d (take 2 (is_data s))"
    by (simp add: ReadIntoObj_uint16_eq raw_copy_full16)
  have v32: "bytes_taken s 4 = 4
        \<longrightarrow> fst (snd (ReadIntoObj_uint32 d h s w)) = load32 d (take 4 (is_data s))"
    by (simp add: ReadIntoObj_uint32_eq raw_copy_full32)
  have r16: "fst (ReadIntoObj_uint16 d h s v) = (bytes_taken s 2 = 2)"
    "is_gcount (snd (snd (ReadIntoObj_uint16 d h s v))) = bytes_taken s 2"
    by (simp_all add: ReadIntoObj_uint16_eq)
  have r32: "fst (ReadIntoObj_uint32 d h s w) = (bytes_taken s 4 = 4)"
    "is_gcount (snd (snd (ReadIntoObj_uint32 d h s w))) = bytes_taken s 4"
    by (simp_all add: ReadIntoObj_uint32_eq)
  have r: "fst (ReadIntoObj s obj) = (bytes_taken s (length obj) = length obj)"
    "fst (snd (ReadIntoObj s obj)) = raw_copy s obj"
    "is_gcount (snd (snd (ReadIntoObj s obj))) = bytes_taken s (length obj)"
    "is_data (snd (snd (ReadIntoObj s obj))) = drop (bytes_taken s (length obj)) (is_data s)"
    by (simp_all add: g)
  show ?thesis
    using r r16 r32 m16 m32 v16 v32 ReadIntoObj_int16_eq [of d h s v]
      ReadIntoObj_int32_eq [of d h s w]
    by blast
qed

theorem ReadIntoObj_reads_and_converts_witness:
  "bytes_taken example_stream 2 = 2
   \<and> fst (snd (ReadIntoObj_uint16 False True example_stream 0)) = 0x1234
   \<and> store16 True (fst (snd (ReadIntoObj_uint16 False True example_stream 0))) = [0x12, 0x34]
   \<and> bytes_taken example_stream 4 = 4
   \<and> fst (snd (ReadIntoObj_uint32 False True example_stream 0)) = 0x56781234
   \<and> fst (snd (ReadIntoObj example_stream [0, 0])) = [0x34, 0x12]
   \<and> \<not> fst (ReadIntoObj example_stream [1, 2, 3, 4, 5, 6])
   \<and> fst (snd (ReadIntoObj example_stream [1, 2, 3, 4, 5, 6])) = [0x34, 0x12, 0x78, 0x56, 0xbc, 6]"
  using ReadIntoObj_reads_and_converts [of example_stream "[0, 0]" False True 0 0]
    ReadIntoObj_reads_and_converts [of example_stream "[1, 2, 3, 4, 5, 6]" False True 0 0]
  by (simp add: example_stream_def bytes_taken_def raw_copy_def store16_def store32_def
      load16_def load32_def cat16_def cat32_def)

subsection \<open>The buffered descriptor input stream\<close>


lemma to_int_type_not_eof: "to_int_type c \<noteq> traits_eof"
  unfolding to_int_type_def traits_eof_def using uint_nonnegative [of c] by linarith

lemma sys_read_cases:
  "sys_read f n = (r, got, f') \<Longrightarrow>
     (r < 0 \<longleftrightarrow> \<not> d_readable f) \<and> (0 \<le> r \<longrightarrow> r = int (length got)) \<and> (r < 0 \<longrightarrow> got = [])"
  by (auto simp add: sys_read_def Let_def split: if_splits)

lemma underflow_calls:
  "in_calls (snd (underflow s)) = in_calls s @ [SysRead (in_fd s) buffer_size]"
  by (simp add: underflow_def Let_def setg_def split: prod.splits)

lemma underflow_zero:
  "fst (sys_read (in_desc s) buffer_size) = 0 \<Longrightarrow>
     fst (underflow s) = traits_eof \<and> in_log (snd (underflow s)) = in_log s"
  by (cases "sys_read (in_desc s) buffer_size") (simp add: underflow_def Let_def)

lemma underflow_error:
  "fst (sys_read (in_desc s) buffer_size) < 0 \<Longrightarrow>
     fst (underflow s) = traits_eof \<and> in_log (snd (underflow s)) = in_log s @ [''underflow failed'']"
  by (cases "sys_read (in_desc s) buffer_size") (simp add: underflow_def Let_def)

lemma underflow_data:
  assumes "0 < fst (sys_read (in_desc s) buffer_size)"
  shows "fst (underflow s) = to_int_type (hd (fst (snd (sys_read (in_desc s) buffer_size))))"
    and "in_gptr (snd (underflow s)) = 0"
    and "in_egptr (snd (underflow s)) = nat (fst (sys_read (in_desc s) buffer_size))"
    and "take (in_egptr (snd (underflow s))) (in_buffer (snd (underflow s)))
           = fst (snd (sys_read (in_desc s) buffer_size))"
    and "in_log (snd (underflow s)) = in_log s"
proof -
  obtain r got f' where sr: "sys_read (in_desc s) buffer_size = (r, got, f')"
    by (cases "sys_read (in_desc s) buffer_size") auto
  with assms have r: "0 < r" by simp
  with sys_read_cases [OF sr] have len: "r = int (length got)" by simp
  with r have ne: "got \<noteq> []" by auto
  have u: "underflow s =
      (to_int_type (hd got),
       s\<lparr>in_desc := f', in_buffer := got @ drop (length got) (in_buffer s),
         in_calls := in_calls s @ [SysRead (in_fd s) buffer_size],
         in_eback := 0, in_gptr := 0, in_egptr := length got\<rparr>)"
    using r ne len
    by (simp add: underflow_def sr Let_def setg_def buffer_start_def hd_conv_nth nth_append)
  show "fst (underflow s) = to_int_type (hd (fst (snd (sys_read (in_desc s) buffer_size))))"
    by (simp add: u sr)
  show "in_gptr (snd (underflow s)) = 0" by (simp add: u)
  show "in_egptr (snd (underflow s)) = nat (fst (sys_read (in_desc s) buffer_size))"
    by (simp add: u sr len)
  show "take (in_egptr (snd (underflow s))) (in_buffer (snd (underflow s)))
           = fst (snd (sys_read (in_desc s) buffer_size))"
    by (simp add: u sr)
  show "in_log (snd (underflow s)) = in_log s" by (simp add: u)
qed

lemma sgetc_at_end: "in_gptr s = in_egptr s \<Longrightarrow> sgetc s = underflow s"
  by (simp add: sgetc_def)

lemma uflow_calls: "in_calls (snd (uflow s)) = in_calls (snd (underflow s))"
  by (simp add: uflow_def Let_def split: prod.splits)

lemma uflow_eof: "fst (uflow s) = traits_eof \<longleftrightarrow> fst (underflow s) = traits_eof"
  by (auto simp add: uflow_def Let_def to_int_type_not_eof split: prod.splits)

lemma seekoff_cur_eq:
  assumes "0 \<le> logical_pos s + delta"
  shows "seekoff s delta ios_cur =
     (logical_pos s + delta,
      s\<lparr>in_desc := (in_desc s)\<lparr>d_offset := nat (logical_pos s + delta)\<rparr>,
        in_calls := in_calls s @ [SysLseek (in_fd s) (delta - unread s) SEEK_CUR],
        in_eback := buffer_start, in_gptr := buffer_end, in_egptr := buffer_end\<rparr>)"
proof -
  have t: "int (d_offset (in_desc s)) + (delta - unread s) = logical_pos s + delta"
    by (simp add: logical_pos_def)
  have o: "delta + (int (in_gptr s) - int (in_egptr s)) = delta - unread s"
    by (simp add: unread_def)
  show ?thesis
    using assms
    by (simp add: seekoff_def sys_lseek_def CppSeekdirToCSeekdir_def Let_def setg_def t o)
qed

lemma sgetc_after_seek:
  assumes "in_gptr s = in_egptr s" "d_readable (in_desc s)"
    "d_offset (in_desc s) < length (d_content (in_desc s))"
  shows "fst (sgetc s) = to_int_type (d_content (in_desc s) ! d_offset (in_desc s))"
proof -
  let ?f = "in_desc s"
  let ?got = "take buffer_size (drop (d_offset ?f) (d_content ?f))"
  have ne: "?got \<noteq> []" using assms(3) by (simp add: buffer_size_def)
  have sr: "sys_read ?f buffer_size = (int (length ?got), ?got, ?f\<lparr>d_offset := d_offset ?f + length ?got\<rparr>)"
    using assms(2) by (simp add: sys_read_def Let_def)
  have pos: "0 < fst (sys_read ?f buffer_size)" using ne by (simp add: sr)
  have "hd ?got = d_content ?f ! d_offset ?f"
    using assms(3) by (simp add: hd_conv_nth ne buffer_size_def hd_drop_conv_nth)
  then show ?thesis
    using underflow_data(1) [OF pos] assms(1) by (simp add: sgetc_def sr)
qed


lemma sbumpc_buffered:
  "in_gptr s < in_egptr s \<Longrightarrow>
     sbumpc s = (to_int_type (in_buffer s ! in_gptr s), s\<lparr>in_gptr := in_gptr s + 1\<rparr>)"
  by (simp add: sbumpc_def)

lemma sgetn_buffered:
  "in_gptr s + k \<le> in_egptr s \<Longrightarrow> in_egptr s \<le> length (in_buffer s) \<Longrightarrow>
     sgetn s k = (map to_int_type (take k (drop (in_gptr s) (in_buffer s))),
                  s\<lparr>in_gptr := in_gptr s + k\<rparr>)"
proof (induction k arbitrary: s)
  case 0
  then show ?case by simp
next
  case (Suc k)
  let ?s' = "s\<lparr>in_gptr := in_gptr s + 1\<rparr>"
  from Suc.prems have lt: "in_gptr s < in_egptr s" by simp
  from Suc.prems have len: "in_gptr s < length (in_buffer s)" by simp
  have ih: "sgetn ?s' k = (map to_int_type (take k (drop (in_gptr ?s') (in_buffer ?s'))),
                  ?s'\<lparr>in_gptr := in_gptr ?s' + k\<rparr>)"
    by (rule Suc.IH) (use Suc.prems in simp_all)
  have d: "drop (in_gptr s) (in_buffer s) = in_buffer s ! in_gptr s # drop (Suc (in_gptr s)) (in_buffer s)"
    using len by (simp add: Cons_nth_drop_Suc)
  show ?case
    using ih by (simp add: sbumpc_buffered [OF lt] to_int_type_not_eof d)
qed

lemma sys_read_readable:
  "d_readable f \<Longrightarrow>
     sys_read f buffer_size
       = (int (length (probe_bytes f)), probe_bytes f, f\<lparr>d_offset := d_offset f + length (probe_bytes f)\<rparr>)"
  by (simp add: sys_read_def probe_bytes_def Let_def)

lemma sys_read_unreadable: "\<not> d_readable f \<Longrightarrow> sys_read f n = (- 1, [], f)"
  by (simp add: sys_read_def)

lemma length_probe_bytes: "length (probe_bytes f) \<le> buffer_size"
  by (simp add: probe_bytes_def)

lemma Create_null:
  "getHandleForPath env (MakePath env (saf_path fs) path) = None \<Longrightarrow>
     SafFilesystem_CreateInputStreambuffer env fs path
       = (None, [JniGetHandleForPath (MakePath env (saf_path fs) path)], [])"
  by (simp add: SafFilesystem_CreateInputStreambuffer_def get_jni_handle_def)

lemma Create_no_descriptor:
  "getHandleForPath env (MakePath env (saf_path fs) path) = Some obj \<Longrightarrow>
   sf_createInputFileDescriptor obj < 0 \<Longrightarrow>
     SafFilesystem_CreateInputStreambuffer env fs path
       = (None, [JniGetHandleForPath (MakePath env (saf_path fs) path),
                 JniCreateInputFileDescriptor], [])"
  by (simp add: SafFilesystem_CreateInputStreambuffer_def get_jni_handle_def)

lemma Create_read_fails:
  "getHandleForPath env (MakePath env (saf_path fs) path) = Some obj \<Longrightarrow>
   0 \<le> sf_createInputFileDescriptor obj \<Longrightarrow>
   \<not> d_readable (kernel env (sf_createInputFileDescriptor obj)) \<Longrightarrow>
     SafFilesystem_CreateInputStreambuffer env fs path
       = (None, [JniGetHandleForPath (MakePath env (saf_path fs) path),
                 JniCreateInputFileDescriptor,
                 SysRead (sf_createInputFileDescriptor obj) buffer_size,
                 SysClose (sf_createInputFileDescriptor obj)], [''read failed''])"
  by (simp add: SafFilesystem_CreateInputStreambuffer_def get_jni_handle_def Let_def
      sys_read_unreadable)

lemma Create_read_ok:
  assumes "getHandleForPath env (MakePath env (saf_path fs) path) = Some obj"
    and "0 \<le> sf_createInputFileDescriptor obj"
    and "d_readable (kernel env (sf_createInputFileDescriptor obj))"
  shows "SafFilesystem_CreateInputStreambuffer env fs path
       = (Some \<lparr>in_fd = sf_createInputFileDescriptor obj,
                in_desc = (kernel env (sf_createInputFileDescriptor obj))
                  \<lparr>d_offset := d_offset (kernel env (sf_createInputFileDescriptor obj))
                      + length (probe_bytes (kernel env (sf_createInputFileDescriptor obj)))\<rparr>,
                in_buffer = probe_bytes (kernel env (sf_createInputFileDescriptor obj))
                  @ drop (length (probe_bytes (kernel env (sf_createInputFileDescriptor obj))))
                      (replicate buffer_size 0),
                in_eback = 0, in_gptr = 0,
                in_egptr = length (probe_bytes (kernel env (sf_createInputFileDescriptor obj))),
                in_calls = [], in_log = []\<rparr>,
          [JniGetHandleForPath (MakePath env (saf_path fs) path),
                 JniCreateInputFileDescriptor,
                 SysRead (sf_createInputFileDescriptor obj) buffer_size], [])"
  using assms
  by (simp add: SafFilesystem_CreateInputStreambuffer_def get_jni_handle_def Let_def
      sys_read_readable FdStreamBufIn_ctor_def setg_def buffer_start_def)


lemma sbumpc_at_logical_pos:
  assumes "window_ok s" "in_gptr s < in_egptr s"
  shows "fst (sbumpc s) = to_int_type (d_content (in_desc s) ! nat (logical_pos s))"
    and "logical_pos (snd (sbumpc s)) = logical_pos s + 1"
proof -
  let ?k = "nat (unread s)"
  let ?lp = "nat (logical_pos s)"
  have k: "?k = in_egptr s - in_gptr s" "0 < ?k"
    using assms(2) by (simp_all add: unread_def)
  have u: "0 \<le> unread s"
    using assms(2) by (simp add: unread_def)
  have lp: "?lp = d_offset (in_desc s) - ?k"
    using u by (simp add: logical_pos_def nat_diff_distrib')
  have b1: "in_gptr s < length (in_buffer s)"
    using assms by (simp add: window_ok_def)
  have w: "?k \<le> d_offset (in_desc s)" "d_offset (in_desc s) \<le> length (d_content (in_desc s))"
    using assms(1) by (simp_all add: window_ok_def)
  have b2: "?lp < length (d_content (in_desc s))"
    unfolding lp using w k(2) by linarith
  have "in_buffer s ! in_gptr s = hd (take ?k (drop (in_gptr s) (in_buffer s)))"
    using k b1 by (simp add: hd_drop_conv_nth)
  also have "\<dots> = hd (take ?k (drop ?lp (d_content (in_desc s))))"
    using assms(1) by (simp add: window_ok_def)
  also have "\<dots> = d_content (in_desc s) ! ?lp"
    using k b2 by (simp add: hd_drop_conv_nth)
  finally show "fst (sbumpc s) = to_int_type (d_content (in_desc s) ! nat (logical_pos s))"
    using assms(2) by (simp add: sbumpc_def)
  show "logical_pos (snd (sbumpc s)) = logical_pos s + 1"
    using assms(2) by (simp add: sbumpc_def logical_pos_def unread_def)
qed

lemma created_window_ok:
  assumes "getHandleForPath env (MakePath env (saf_path fs) path) = Some obj"
    and "0 \<le> sf_createInputFileDescriptor obj"
    and "d_readable (kernel env (sf_createInputFileDescriptor obj))"
    and "d_offset (kernel env (sf_createInputFileDescriptor obj)) = 0"
  shows "window_ok (the (fst (SafFilesystem_CreateInputStreambuffer env fs path)))"
    and "logical_pos (the (fst (SafFilesystem_CreateInputStreambuffer env fs path))) = 0"
  using assms(4) length_probe_bytes [of "kernel env (sf_createInputFileDescriptor obj)"]
  by (simp_all add: Create_read_ok [OF assms(1-3)] window_ok_def logical_pos_def unread_def
      probe_bytes_def)

text \<open>
  C8. When the read pointer has reached the end of the buffered region, reading calls
  \<open>underflow\<close>, which issues exactly one \<open>read\<close> of the buffer's capacity. A result of
  zero gives end-of-stream; a negative result is logged and gives end-of-stream as well;
  a positive result makes the bytes read the new buffered region and returns the first.
\<close>

theorem underflow_one_read:
  "(in_gptr s = in_egptr s \<longrightarrow> sgetc s = underflow s)
   \<and> in_calls (snd (underflow s)) = in_calls s @ [SysRead (in_fd s) buffer_size]
   \<and> in_calls (snd (uflow s)) = in_calls s @ [SysRead (in_fd s) buffer_size]
   \<and> (fst (sys_read (in_desc s) buffer_size) = 0
        \<longrightarrow> fst (underflow s) = traits_eof \<and> in_log (snd (underflow s)) = in_log s)
   \<and> (fst (sys_read (in_desc s) buffer_size) < 0
        \<longrightarrow> fst (underflow s) = traits_eof
          \<and> in_log (snd (underflow s)) = in_log s @ [''underflow failed''])
   \<and> (0 < fst (sys_read (in_desc s) buffer_size)
        \<longrightarrow> fst (underflow s) = to_int_type (hd (fst (snd (sys_read (in_desc s) buffer_size))))
          \<and> fst (underflow s) \<noteq> traits_eof
          \<and> in_gptr (snd (underflow s)) = 0
          \<and> in_egptr (snd (underflow s)) = nat (fst (sys_read (in_desc s) buffer_size))
          \<and> take (in_egptr (snd (underflow s))) (in_buffer (snd (underflow s)))
               = fst (snd (sys_read (in_desc s) buffer_size))
          \<and> in_log (snd (underflow s)) = in_log s)"
proof -
  have a: "in_gptr s = in_egptr s \<longrightarrow> sgetc s = underflow s"
    by (simp add: sgetc_at_end)
  have b: "in_calls (snd (uflow s)) = in_calls s @ [SysRead (in_fd s) buffer_size]"
    by (simp only: uflow_calls underflow_calls)
  have c: "0 < fst (sys_read (in_desc s) buffer_size)
        \<longrightarrow> fst (underflow s) = to_int_type (hd (fst (snd (sys_read (in_desc s) buffer_size))))
          \<and> fst (underflow s) \<noteq> traits_eof
          \<and> in_gptr (snd (underflow s)) = 0
          \<and> in_egptr (snd (underflow s)) = nat (fst (sys_read (in_desc s) buffer_size))
          \<and> take (in_egptr (snd (underflow s))) (in_buffer (snd (underflow s)))
               = fst (snd (sys_read (in_desc s) buffer_size))
          \<and> in_log (snd (underflow s)) = in_log s"
    using underflow_data [of s] to_int_type_not_eof by metis
  show ?thesis
    using a b c underflow_calls [of s] underflow_zero [of s] underflow_error [of s] by blast
qed

theorem underflow_one_read_witness:
  "in_gptr example_in_start = in_egptr example_in_start
   \<and> 0 < fst (sys_read (in_desc example_in_start) buffer_size)
   \<and> sgetc example_in_start = underflow example_in_start
   \<and> fst (underflow example_in_start) = 10
   \<and> in_egptr (snd (underflow example_in_start)) = 10
   \<and> in_calls (snd (underflow example_in_start)) = [SysRead 3 buffer_size]
   \<and> fst (sys_read (in_desc example_in_dir) buffer_size) < 0
   \<and> fst (underflow example_in_dir) = - 1
   \<and> in_log (snd (underflow example_in_dir)) = [''underflow failed'']
   \<and> fst (sys_read (in_desc (snd (underflow example_in_start))) buffer_size) = 0
   \<and> fst (underflow (snd (underflow example_in_start))) = - 1
   \<and> in_log (snd (underflow (snd (underflow example_in_start)))) = []"
proof -
  have r1: "sys_read example_file buffer_size
      = (10, d_content example_file, example_file\<lparr>d_offset := 10\<rparr>)"
    by (simp add: sys_read_def example_file_def buffer_size_def Let_def)
  have r2: "sys_read example_dir buffer_size = (- 1, [], example_dir)"
    by (simp add: sys_read_def example_dir_def)
  have r3: "sys_read (example_file\<lparr>d_offset := 10\<rparr>) buffer_size
      = (0, [], example_file\<lparr>d_offset := 10\<rparr>)"
    by (simp add: sys_read_def example_file_def buffer_size_def Let_def)
  have i: "in_desc example_in_start = example_file" "in_gptr example_in_start = 0"
    "in_egptr example_in_start = 0" "in_calls example_in_start = []" "in_fd example_in_start = 3"
    "in_log example_in_start = []"
    by (simp_all add: example_in_start_def)
  have j: "in_desc example_in_dir = example_dir" "in_log example_in_dir = []"
    by (simp_all add: example_in_dir_def)
  have d: "in_desc (snd (underflow example_in_start)) = example_file\<lparr>d_offset := 10\<rparr>"
    by (simp add: underflow_def i r1 setg_def)
  have g: "in_gptr example_in_start = in_egptr example_in_start"
    by (simp add: i)
  have p1: "0 < fst (sys_read (in_desc example_in_start) buffer_size)"
    by (simp add: i r1)
  have p2: "fst (sys_read (in_desc example_in_dir) buffer_size) < 0"
    by (simp add: j r2)
  have p3: "fst (sys_read (in_desc (snd (underflow example_in_start))) buffer_size) = 0"
    by (simp add: d r3)
  note t1 = underflow_one_read [of example_in_start]
  note t2 = underflow_one_read [of example_in_dir]
  note t3 = underflow_one_read [of "snd (underflow example_in_start)"]
  from t1 g have a1: "sgetc example_in_start = underflow example_in_start"
    by blast
  from t1 p1 have a2: "fst (underflow example_in_start)
      = to_int_type (hd (fst (snd (sys_read (in_desc example_in_start) buffer_size))))"
    and a3: "in_egptr (snd (underflow example_in_start))
      = nat (fst (sys_read (in_desc example_in_start) buffer_size))"
    and a5: "in_log (snd (underflow example_in_start)) = in_log example_in_start"
    by blast+
  from t1 have a4: "in_calls (snd (underflow example_in_start))
      = in_calls example_in_start @ [SysRead (in_fd example_in_start) buffer_size]"
    by blast
  from t2 p2 have b1: "fst (underflow example_in_dir) = traits_eof"
    and b2: "in_log (snd (underflow example_in_dir)) = in_log example_in_dir @ [''underflow failed'']"
    by blast+
  from t3 p3 have c1: "fst (underflow (snd (underflow example_in_start))) = traits_eof"
    and c2: "in_log (snd (underflow (snd (underflow example_in_start))))
      = in_log (snd (underflow example_in_start))"
    by blast+
  have v: "to_int_type (hd (d_content example_file)) = 10"
    by (simp add: example_file_def to_int_type_def)
  show ?thesis
    using g p1 p2 p3 a1 a2 a3 a4 a5 b1 b2 c1 c2 v
    by (simp add: i j r1 traits_eof_def)
qed

text \<open>
  C2. A seek with \<open>Current\<close> origin on a stream with unread, already buffered data lands
  on the logical position before the seek plus the requested delta: the backend seek is
  issued with the delta less the amount of unread buffered data, its result and the
  position afterwards are the logical target, and the next byte read is the byte of the
  file at that offset. The logical position is where the stream reads next: before the
  seek, the next byte consumed from the buffer is the byte of the file at it. The target
  must not lie before the start of the file, where the backend seek fails.
\<close>

theorem seekoff_cur_logical_offset:
  assumes "0 \<le> logical_pos s + delta"
  shows "fst (seekoff s delta ios_cur) = logical_pos s + delta
   \<and> logical_pos (snd (seekoff s delta ios_cur)) = logical_pos s + delta
   \<and> int (d_offset (in_desc (snd (seekoff s delta ios_cur)))) = logical_pos s + delta
   \<and> in_calls (snd (seekoff s delta ios_cur))
        = in_calls s @ [SysLseek (in_fd s) (delta - unread s) SEEK_CUR]
   \<and> (d_readable (in_desc s) \<and> nat (logical_pos s + delta) < length (d_content (in_desc s))
        \<longrightarrow> fst (sgetc (snd (seekoff s delta ios_cur)))
              = to_int_type (d_content (in_desc s) ! nat (logical_pos s + delta)))
   \<and> (window_ok s \<and> in_gptr s < in_egptr s
        \<longrightarrow> fst (sbumpc s) = to_int_type (d_content (in_desc s) ! nat (logical_pos s)))"
proof -
  let ?s' = "snd (seekoff s delta ios_cur)"
  note e = seekoff_cur_eq [OF assms]
  have p: "logical_pos ?s' = logical_pos s + delta"
    using assms by (simp add: e logical_pos_def [of "s\<lparr>in_desc := _, in_calls := _, in_eback := _, in_gptr := _, in_egptr := _\<rparr>"] unread_def)
  have o: "int (d_offset (in_desc ?s')) = logical_pos s + delta"
    using assms by (simp add: e)
  have g: "d_readable (in_desc s) \<and> nat (logical_pos s + delta) < length (d_content (in_desc s))
        \<longrightarrow> fst (sgetc ?s') = to_int_type (d_content (in_desc s) ! nat (logical_pos s + delta))"
  proof
    assume h: "d_readable (in_desc s) \<and> nat (logical_pos s + delta) < length (d_content (in_desc s))"
    have "fst (sgetc ?s') = to_int_type (d_content (in_desc ?s') ! d_offset (in_desc ?s'))"
      by (rule sgetc_after_seek) (use h in \<open>simp_all add: e\<close>)
    then show "fst (sgetc ?s') = to_int_type (d_content (in_desc s) ! nat (logical_pos s + delta))"
      by (simp add: e)
  qed
  have b: "window_ok s \<and> in_gptr s < in_egptr s
        \<longrightarrow> fst (sbumpc s) = to_int_type (d_content (in_desc s) ! nat (logical_pos s))"
    using sbumpc_at_logical_pos(1) [of s] by blast
  show ?thesis
    using p o g b by (simp add: e)
qed

theorem seekoff_cur_logical_offset_witness:
  "0 \<le> logical_pos example_in + 3
   \<and> logical_pos example_in = 2
   \<and> d_offset (in_desc example_in) = 10
   \<and> fst (seekoff example_in 3 ios_cur) = 5
   \<and> logical_pos (snd (seekoff example_in 3 ios_cur)) = 5
   \<and> in_calls (snd (seekoff example_in 3 ios_cur)) = [SysLseek 3 (- 5) SEEK_CUR]
   \<and> fst (sgetc (snd (seekoff example_in 3 ios_cur))) = 60
   \<and> window_ok example_in \<and> in_gptr example_in < in_egptr example_in
   \<and> fst (sbumpc example_in) = 30"
proof -
  have wo: "window_ok example_in"
    by (simp add: window_ok_def logical_pos_def unread_def example_in_def example_file_def)
  have lt: "in_gptr example_in < in_egptr example_in"
    by (simp add: example_in_def)
  have l: "logical_pos example_in = 2"
    by (simp add: logical_pos_def unread_def example_in_def example_file_def)
  have u: "unread example_in = 8"
    by (simp add: unread_def example_in_def)
  have h: "0 \<le> logical_pos example_in + 3"
    by (simp add: l)
  have f: "in_fd example_in = 3" "in_calls example_in = []"
    "d_readable (in_desc example_in)" "d_offset (in_desc example_in) = 10"
    "d_content (in_desc example_in) = [10, 20, 30, 40, 50, 60, 70, 80, 90, 100]"
    by (simp_all add: example_in_def example_file_def)
  show ?thesis
    using seekoff_cur_logical_offset [OF h] wo lt
    by (simp add: l u f to_int_type_def)
qed

subsection \<open>Stream creation on the bridged-handle backend\<close>

lemma example_handles:
  "getHandleForPath example_env (MakePath example_env (saf_path example_fs) ''save.lsd'')
     = Some \<lparr>sf_isFile = 1, sf_isDirectory = 0, sf_exists = 1, sf_getFilesize = 10,
                   sf_createInputFileDescriptor = 3\<rparr>"
  "getHandleForPath example_env (MakePath example_env (saf_path example_fs) ''missing.lsd'')
     = Some \<lparr>sf_isFile = 0, sf_isDirectory = 0, sf_exists = 0, sf_getFilesize = 0,
                   sf_createInputFileDescriptor = 4\<rparr>"
  "getHandleForPath example_env (MakePath example_env (saf_path example_fs) ''nothing'') = None"
  "MakePath example_env (saf_path example_fs) ''missing.lsd'' = ''content://tree/missing.lsd''"
  "MakePath example_env (saf_path example_fs) ''nothing'' = ''content://tree/nothing''"
  "kernel example_env 3 = example_file" "kernel example_env 4 = example_dir"
  by (simp_all add: example_env_def example_fs_def)

text \<open>
  C5. Once the host has returned a handle and a descriptor, input-stream creation issues
  exactly one probe read of the buffer's capacity on it. If the read fails, the open
  returns no stream (and closes the descriptor). If it succeeds, the stream is created
  over the bytes of the probe: reading any number of them returns exactly those bytes,
  and neither creation nor these reads issue a further system call on the descriptor.
\<close>

theorem CreateInputStreambuffer_forwards_probe:
  assumes "getHandleForPath env (MakePath env (saf_path fs) path) = Some obj"
    and "0 \<le> sf_createInputFileDescriptor obj"
  shows "fst (snd (SafFilesystem_CreateInputStreambuffer env fs path))
        = [JniGetHandleForPath (MakePath env (saf_path fs) path), JniCreateInputFileDescriptor,
           SysRead (sf_createInputFileDescriptor obj) buffer_size]
          @ (if d_readable (kernel env (sf_createInputFileDescriptor obj)) then []
             else [SysClose (sf_createInputFileDescriptor obj)])
   \<and> (\<not> d_readable (kernel env (sf_createInputFileDescriptor obj))
        \<longrightarrow> fst (SafFilesystem_CreateInputStreambuffer env fs path) = None)
   \<and> (d_readable (kernel env (sf_createInputFileDescriptor obj))
        \<longrightarrow> fst (SafFilesystem_CreateInputStreambuffer env fs path) \<noteq> None
          \<and> in_calls (the (fst (SafFilesystem_CreateInputStreambuffer env fs path))) = []
          \<and> (k \<le> length (probe_bytes (kernel env (sf_createInputFileDescriptor obj)))
               \<longrightarrow> fst (sgetn (the (fst (SafFilesystem_CreateInputStreambuffer env fs path))) k)
                     = map to_int_type
                         (take k (probe_bytes (kernel env (sf_createInputFileDescriptor obj))))
                 \<and> in_calls (snd (sgetn
                       (the (fst (SafFilesystem_CreateInputStreambuffer env fs path))) k)) = []))"
proof (cases "d_readable (kernel env (sf_createInputFileDescriptor obj))")
  case False
  then show ?thesis
    by (simp add: Create_read_fails [OF assms False])
next
  case True
  let ?fd = "sf_createInputFileDescriptor obj"
  let ?p = "probe_bytes (kernel env ?fd)"
  let ?sb = "the (fst (SafFilesystem_CreateInputStreambuffer env fs path))"
  note c = Create_read_ok [OF assms True]
  have sb: "in_gptr ?sb = 0" "in_egptr ?sb = length ?p" "in_calls ?sb = []"
    "in_buffer ?sb = ?p @ drop (length ?p) (replicate buffer_size 0)"
    by (simp_all add: c)
  have len: "in_egptr ?sb \<le> length (in_buffer ?sb)"
    using length_probe_bytes [of "kernel env ?fd"] by (simp add: sb)
  have g: "k \<le> length ?p \<longrightarrow> fst (sgetn ?sb k) = map to_int_type (take k ?p)
        \<and> in_calls (snd (sgetn ?sb k)) = []"
  proof
    assume k: "k \<le> length ?p"
    then have "in_gptr ?sb + k \<le> in_egptr ?sb" by (simp add: sb)
    from sgetn_buffered [OF this len]
    have "sgetn ?sb k = (map to_int_type (take k (drop (in_gptr ?sb) (in_buffer ?sb))),
                  ?sb\<lparr>in_gptr := in_gptr ?sb + k\<rparr>)" .
    then show "fst (sgetn ?sb k) = map to_int_type (take k ?p) \<and> in_calls (snd (sgetn ?sb k)) = []"
      using k by (simp add: sb)
  qed
  have n: "fst (SafFilesystem_CreateInputStreambuffer env fs path) \<noteq> None"
    by (simp add: c)
  have cs: "fst (snd (SafFilesystem_CreateInputStreambuffer env fs path))
        = [JniGetHandleForPath (MakePath env (saf_path fs) path), JniCreateInputFileDescriptor,
           SysRead ?fd buffer_size]"
    by (simp add: c)
  show ?thesis
    using True g n cs sb(3) by simp
qed

theorem CreateInputStreambuffer_forwards_probe_witness:
  "getHandleForPath example_env (MakePath example_env (saf_path example_fs) ''save.lsd'')
     = Some \<lparr>sf_isFile = 1, sf_isDirectory = 0, sf_exists = 1, sf_getFilesize = 10,
                   sf_createInputFileDescriptor = 3\<rparr>
   \<and> d_readable (kernel example_env 3)
   \<and> (4::nat) \<le> length (probe_bytes (kernel example_env 3))
   \<and> fst (sgetn (the (fst (SafFilesystem_CreateInputStreambuffer example_env example_fs
          ''save.lsd''))) 4) = [10, 20, 30, 40]
   \<and> in_calls (snd (sgetn (the (fst (SafFilesystem_CreateInputStreambuffer example_env example_fs
          ''save.lsd''))) 4)) = []
   \<and> getHandleForPath example_env (MakePath example_env (saf_path example_fs) ''missing.lsd'')
     = Some \<lparr>sf_isFile = 0, sf_isDirectory = 0, sf_exists = 0, sf_getFilesize = 0,
                   sf_createInputFileDescriptor = 4\<rparr>
   \<and> \<not> d_readable (kernel example_env 4)
   \<and> fst (SafFilesystem_CreateInputStreambuffer example_env example_fs ''missing.lsd'') = None"
proof -
  have h2: "0 \<le> sf_createInputFileDescriptor \<lparr>sf_isFile = 1, sf_isDirectory = 0, sf_exists = 1,
      sf_getFilesize = 10, sf_createInputFileDescriptor = 3\<rparr>"
    by simp
  have h2': "0 \<le> sf_createInputFileDescriptor \<lparr>sf_isFile = 0, sf_isDirectory = 0, sf_exists = 0,
      sf_getFilesize = 0, sf_createInputFileDescriptor = 4\<rparr>"
    by simp
  have p: "probe_bytes (kernel example_env 3) = [10, 20, 30, 40, 50, 60, 70, 80, 90, 100]"
    by (simp add: example_handles probe_bytes_def example_file_def buffer_size_def)
  have r: "d_readable (kernel example_env 3)"
    by (simp add: example_handles example_file_def)
  have r': "\<not> d_readable (kernel example_env 4)"
    by (simp add: example_handles example_dir_def)
  have a: "fst (sgetn (the (fst (SafFilesystem_CreateInputStreambuffer example_env example_fs
          ''save.lsd''))) 4) = [10, 20, 30, 40]
     \<and> in_calls (snd (sgetn (the (fst (SafFilesystem_CreateInputStreambuffer example_env example_fs
          ''save.lsd''))) 4)) = []"
    using CreateInputStreambuffer_forwards_probe [OF example_handles(1) h2, of 4] r
    by (simp add: p to_int_type_def)
  have b: "fst (SafFilesystem_CreateInputStreambuffer example_env example_fs ''missing.lsd'') = None"
    using CreateInputStreambuffer_forwards_probe [OF example_handles(2) h2', of 0] r'
    by simp
  show ?thesis
    using a b r r' by (simp add: p example_handles(1,2))
qed

lemma example_handles_direct:
  "getHandleForPath example_env ''content://tree/missing.lsd''
     = Some \<lparr>sf_isFile = 0, sf_isDirectory = 0, sf_exists = 0, sf_getFilesize = 0,
                   sf_createInputFileDescriptor = 4\<rparr>"
  "getHandleForPath example_env ''content://tree/nothing'' = None"
  "getHandleForPath example_env ''content://tree/denied.lsd''
     = Some \<lparr>sf_isFile = 0, sf_isDirectory = 0, sf_exists = 0, sf_getFilesize = 0,
                   sf_createInputFileDescriptor = - 1\<rparr>"
  "MakePath example_env (saf_path example_fs) ''denied.lsd'' = ''content://tree/denied.lsd''"
  by (simp_all add: example_env_def example_fs_def)

text \<open>
  C7 as stated fails. For \<open>missing.lsd\<close> the host reports that nothing exists and still
  hands out a handle and a descriptor (of a directory): the open returns no stream, but
  only after a second bridge call, a read attempt and a close.
\<close>

theorem CreateInputStreambuffer_missing_counterexample:
  "sf_exists (the (getHandleForPath example_env
        (MakePath example_env (saf_path example_fs) ''missing.lsd''))) = 0
   \<and> fst (SafFilesystem_CreateInputStreambuffer example_env example_fs ''missing.lsd'') = None
   \<and> fst (snd (SafFilesystem_CreateInputStreambuffer example_env example_fs ''missing.lsd''))
       = [JniGetHandleForPath ''content://tree/missing.lsd'', JniCreateInputFileDescriptor,
          SysRead 4 4096, SysClose 4]
   \<and> fst (snd (SafFilesystem_CreateInputStreambuffer example_env example_fs ''missing.lsd''))
       \<noteq> [JniGetHandleForPath ''content://tree/missing.lsd'']"
proof -
  have h2: "0 \<le> sf_createInputFileDescriptor \<lparr>sf_isFile = 0, sf_isDirectory = 0, sf_exists = 0,
      sf_getFilesize = 0, sf_createInputFileDescriptor = 4\<rparr>"
    by simp
  have h3: "\<not> d_readable (kernel example_env (sf_createInputFileDescriptor
      \<lparr>sf_isFile = 0, sf_isDirectory = 0, sf_exists = 0,
      sf_getFilesize = 0, sf_createInputFileDescriptor = 4\<rparr>))"
    by (simp add: example_handles example_dir_def)
  show ?thesis
    using Create_read_fails [OF example_handles(2) h2 h3]
    by (simp add: example_handles example_handles_direct buffer_size_def)
qed

text \<open>
  C7, amended. Opening a path for input on the bridged-handle backend returns no stream
  and makes no call beyond the handle resolution when the host resolves the path to no
  handle. When the host hands out a handle for the path, the open asks it for a
  descriptor; without a descriptor it returns no stream, and with a descriptor whose
  probe read fails it closes the descriptor and returns no stream.
\<close>

theorem CreateInputStreambuffer_missing_path:
  "(getHandleForPath env (MakePath env (saf_path fs) path) = None
      \<longrightarrow> SafFilesystem_CreateInputStreambuffer env fs path
            = (None, [JniGetHandleForPath (MakePath env (saf_path fs) path)], []))
   \<and> (getHandleForPath env (MakePath env (saf_path fs) path) = Some obj
        \<and> sf_createInputFileDescriptor obj < 0
      \<longrightarrow> SafFilesystem_CreateInputStreambuffer env fs path
            = (None, [JniGetHandleForPath (MakePath env (saf_path fs) path),
                      JniCreateInputFileDescriptor], []))
   \<and> (getHandleForPath env (MakePath env (saf_path fs) path) = Some obj
        \<and> 0 \<le> sf_createInputFileDescriptor obj
        \<and> \<not> d_readable (kernel env (sf_createInputFileDescriptor obj))
      \<longrightarrow> SafFilesystem_CreateInputStreambuffer env fs path
            = (None, [JniGetHandleForPath (MakePath env (saf_path fs) path),
                      JniCreateInputFileDescriptor,
                      SysRead (sf_createInputFileDescriptor obj) buffer_size,
                      SysClose (sf_createInputFileDescriptor obj)], [''read failed'']))"
  using Create_null [of env fs path] Create_no_descriptor [of env fs path obj]
    Create_read_fails [of env fs path obj]
  by blast

theorem CreateInputStreambuffer_missing_path_witness:
  "getHandleForPath example_env (MakePath example_env (saf_path example_fs) ''nothing'') = None
   \<and> SafFilesystem_CreateInputStreambuffer example_env example_fs ''nothing''
       = (None, [JniGetHandleForPath ''content://tree/nothing''], [])
   \<and> SafFilesystem_CreateInputStreambuffer example_env example_fs ''denied.lsd''
       = (None, [JniGetHandleForPath ''content://tree/denied.lsd'',
                 JniCreateInputFileDescriptor], [])
   \<and> SafFilesystem_CreateInputStreambuffer example_env example_fs ''missing.lsd''
       = (None, [JniGetHandleForPath ''content://tree/missing.lsd'',
                 JniCreateInputFileDescriptor, SysRead 4 buffer_size, SysClose 4],
          [''read failed''])"
proof -
  have a: "SafFilesystem_CreateInputStreambuffer example_env example_fs ''nothing''
       = (None, [JniGetHandleForPath ''content://tree/nothing''], [])"
    using CreateInputStreambuffer_missing_path [of example_env example_fs "''nothing''"]
    by (simp add: example_handles example_handles_direct)
  have b: "SafFilesystem_CreateInputStreambuffer example_env example_fs ''denied.lsd''
       = (None, [JniGetHandleForPath ''content://tree/denied.lsd'',
                 JniCreateInputFileDescriptor], [])"
    using CreateInputStreambuffer_missing_path [of example_env example_fs "''denied.lsd''"
        "\<lparr>sf_isFile = 0, sf_isDirectory = 0, sf_exists = 0, sf_getFilesize = 0,
          sf_createInputFileDescriptor = - 1\<rparr>"]
    by (simp add: example_handles_direct)
  have r: "\<not> d_readable (kernel example_env 4)"
    by (simp add: example_handles example_dir_def)
  have c: "SafFilesystem_CreateInputStreambuffer example_env example_fs ''missing.lsd''
       = (None, [JniGetHandleForPath ''content://tree/missing.lsd'',
                 JniCreateInputFileDescriptor, SysRead 4 buffer_size, SysClose 4],
          [''read failed''])"
    using CreateInputStreambuffer_missing_path [of example_env example_fs "''missing.lsd''"
        "\<lparr>sf_isFile = 0, sf_isDirectory = 0, sf_exists = 0, sf_getFilesize = 0,
          sf_createInputFileDescriptor = 4\<rparr>"] r
    by (simp add: example_handles example_handles_direct)
  show ?thesis
    using a b c by (simp add: example_handles example_handles_direct)
qed

subsection \<open>Queries on a missing path\<close>

lemma stat_none_cases:
  "resolve n t p = None \<Longrightarrow> t p = None \<or> (\<exists>q. t p = Some (SymlinkTo q))"
  by (cases n; cases "t p") (auto split: node.splits)

text \<open>
  C6 as stated fails on the bridged-handle backend. For \<open>missing.lsd\<close> nothing exists,
  and the host says so, but it hands out a handle; \<open>GetFilesize\<close> then returns what the
  handle answers, here 0, not \<open>-1\<close>.
\<close>

theorem missing_path_counterexample:
  "getHandleForPath example_env (MakePath example_env (saf_path example_fs) ''missing.lsd'')
     = Some \<lparr>sf_isFile = 0, sf_isDirectory = 0, sf_exists = 0, sf_getFilesize = 0,
                   sf_createInputFileDescriptor = 4\<rparr>
   \<and> \<not> fst (SafFilesystem_Exists example_env example_fs ''missing.lsd'')
   \<and> fst (SafFilesystem_GetFilesize example_env example_fs ''missing.lsd'') = 0
   \<and> fst (SafFilesystem_GetFilesize example_env example_fs ''missing.lsd'') \<noteq> - 1"
  by (simp add: example_handles example_handles_direct SafFilesystem_Exists_def
      SafFilesystem_GetFilesize_def get_jni_handle_def)

text \<open>
  C6, amended. For a path that resolves to nothing (no handle on the bridged-handle
  backend; on the native backend no node, links followed), \<open>IsFile\<close>, \<open>IsDirectory\<close> and
  \<open>Exists\<close> return false, \<open>GetFilesize\<close> returns \<open>-1\<close>, and opening the path for read yields
  no stream buffer; on the bridged-handle backend no call follows the handle resolution.
  For a path for which the host hands out a handle, the bridged-handle queries return
  what the handle answers, each after one further bridge call, and opening for read
  yields no stream buffer when the handle gives no descriptor or the probe read fails.
  All of these are values; nothing is raised.
\<close>

theorem missing_path_queries:
  "(getHandleForPath env (MakePath env (saf_path fs) path) = None
      \<longrightarrow> SafFilesystem_IsFile env fs path
            = (False, [JniGetHandleForPath (MakePath env (saf_path fs) path)])
        \<and> SafFilesystem_IsDirectory env fs path follow
            = (False, [JniGetHandleForPath (MakePath env (saf_path fs) path)])
        \<and> SafFilesystem_Exists env fs path
            = (False, [JniGetHandleForPath (MakePath env (saf_path fs) path)])
        \<and> SafFilesystem_GetFilesize env fs path
            = (- 1, [JniGetHandleForPath (MakePath env (saf_path fs) path)])
        \<and> SafFilesystem_CreateInputStreambuffer env fs path
            = (None, [JniGetHandleForPath (MakePath env (saf_path fs) path)], []))
   \<and> (getHandleForPath env (MakePath env (saf_path fs) path) = Some obj
      \<longrightarrow> SafFilesystem_IsFile env fs path
            = (0 < sf_isFile obj,
               [JniGetHandleForPath (MakePath env (saf_path fs) path), JniIsFile])
        \<and> SafFilesystem_IsDirectory env fs path follow
            = (0 < sf_isDirectory obj,
               [JniGetHandleForPath (MakePath env (saf_path fs) path), JniIsDirectory])
        \<and> SafFilesystem_Exists env fs path
            = (0 < sf_exists obj,
               [JniGetHandleForPath (MakePath env (saf_path fs) path), JniExists])
        \<and> SafFilesystem_GetFilesize env fs path
            = (sf_getFilesize obj,
               [JniGetHandleForPath (MakePath env (saf_path fs) path), JniGetFilesize])
        \<and> (sf_createInputFileDescriptor obj < 0
             \<or> \<not> d_readable (kernel env (sf_createInputFileDescriptor obj))
            \<longrightarrow> fst (SafFilesystem_CreateInputStreambuffer env fs path) = None))
   \<and> (sys_stat t path = None
      \<longrightarrow> NativeFilesystem_IsFile t path = False
        \<and> NativeFilesystem_IsDirectory t path follow = False
        \<and> NativeFilesystem_Exists t path = False
        \<and> NativeFilesystem_GetFilesize t path = - 1
        \<and> NativeFilesystem_CreateInputStreambuffer custom t path = None)"
proof -
  have none: "getHandleForPath env (MakePath env (saf_path fs) path) = None
      \<longrightarrow> SafFilesystem_IsFile env fs path
            = (False, [JniGetHandleForPath (MakePath env (saf_path fs) path)])
        \<and> SafFilesystem_IsDirectory env fs path follow
            = (False, [JniGetHandleForPath (MakePath env (saf_path fs) path)])
        \<and> SafFilesystem_Exists env fs path
            = (False, [JniGetHandleForPath (MakePath env (saf_path fs) path)])
        \<and> SafFilesystem_GetFilesize env fs path
            = (- 1, [JniGetHandleForPath (MakePath env (saf_path fs) path)])
        \<and> SafFilesystem_CreateInputStreambuffer env fs path
            = (None, [JniGetHandleForPath (MakePath env (saf_path fs) path)], [])"
    by (simp add: SafFilesystem_IsFile_def SafFilesystem_IsDirectory_def SafFilesystem_Exists_def
        SafFilesystem_GetFilesize_def SafFilesystem_CreateInputStreambuffer_def get_jni_handle_def)
  have some: "getHandleForPath env (MakePath env (saf_path fs) path) = Some obj
      \<longrightarrow> SafFilesystem_IsFile env fs path
            = (0 < sf_isFile obj,
               [JniGetHandleForPath (MakePath env (saf_path fs) path), JniIsFile])
        \<and> SafFilesystem_IsDirectory env fs path follow
            = (0 < sf_isDirectory obj,
               [JniGetHandleForPath (MakePath env (saf_path fs) path), JniIsDirectory])
        \<and> SafFilesystem_Exists env fs path
            = (0 < sf_exists obj,
               [JniGetHandleForPath (MakePath env (saf_path fs) path), JniExists])
        \<and> SafFilesystem_GetFilesize env fs path
            = (sf_getFilesize obj,
               [JniGetHandleForPath (MakePath env (saf_path fs) path), JniGetFilesize])"
    by (simp add: SafFilesystem_IsFile_def SafFilesystem_IsDirectory_def SafFilesystem_Exists_def
        SafFilesystem_GetFilesize_def get_jni_handle_def)
  have open_fails: "getHandleForPath env (MakePath env (saf_path fs) path) = Some obj
      \<longrightarrow> (sf_createInputFileDescriptor obj < 0
             \<or> \<not> d_readable (kernel env (sf_createInputFileDescriptor obj))
            \<longrightarrow> fst (SafFilesystem_CreateInputStreambuffer env fs path) = None)"
    using Create_no_descriptor [of env fs path obj] Create_read_fails [of env fs path obj]
    by (cases "sf_createInputFileDescriptor obj < 0") auto
  have native: "sys_stat t path = None
      \<longrightarrow> NativeFilesystem_IsFile t path = False
        \<and> NativeFilesystem_IsDirectory t path follow = False
        \<and> NativeFilesystem_Exists t path = False
        \<and> NativeFilesystem_GetFilesize t path = - 1
        \<and> NativeFilesystem_CreateInputStreambuffer custom t path = None"
  proof
    assume h: "sys_stat t path = None"
    then have l: "t path = None \<or> (\<exists>q. t path = Some (SymlinkTo q))"
      unfolding sys_stat_def by (rule stat_none_cases)
    have ty: "Platform_File_GetType t path b \<noteq> File"
      "Platform_File_GetType t path b \<noteq> Directory" for b
      using h l by (auto simp add: Platform_File_GetType_def sys_lstat_def)
    show "NativeFilesystem_IsFile t path = False
        \<and> NativeFilesystem_IsDirectory t path follow = False
        \<and> NativeFilesystem_Exists t path = False
        \<and> NativeFilesystem_GetFilesize t path = - 1
        \<and> NativeFilesystem_CreateInputStreambuffer custom t path = None"
      using h ty
      by (simp add: NativeFilesystem_IsFile_def NativeFilesystem_IsDirectory_def
        NativeFilesystem_Exists_def NativeFilesystem_GetFilesize_def
        NativeFilesystem_CreateInputStreambuffer_def Platform_File_IsFile_def
        Platform_File_IsDirectory_def Platform_File_Exists_def Platform_File_GetSize_def
        sys_open_rdonly_def filebuf_is_open_def)
  qed
  from none some open_fails native show ?thesis by blast
qed

theorem missing_path_queries_witness:
  "getHandleForPath example_env (MakePath example_env (saf_path example_fs) ''nothing'') = None
   \<and> SafFilesystem_GetFilesize example_env example_fs ''nothing''
       = (- 1, [JniGetHandleForPath ''content://tree/nothing''])
   \<and> SafFilesystem_Exists example_env example_fs ''nothing''
       = (False, [JniGetHandleForPath ''content://tree/nothing''])
   \<and> getHandleForPath example_env (MakePath example_env (saf_path example_fs) ''save.lsd'')
       = Some \<lparr>sf_isFile = 1, sf_isDirectory = 0, sf_exists = 1, sf_getFilesize = 10,
                   sf_createInputFileDescriptor = 3\<rparr>
   \<and> SafFilesystem_GetFilesize example_env example_fs ''save.lsd''
       = (10, [JniGetHandleForPath ''content://tree/save.lsd'', JniGetFilesize])
   \<and> SafFilesystem_IsFile example_env example_fs ''save.lsd''
       = (True, [JniGetHandleForPath ''content://tree/save.lsd'', JniIsFile])
   \<and> \<not> d_readable (kernel example_env 4)
   \<and> fst (SafFilesystem_CreateInputStreambuffer example_env example_fs ''missing.lsd'') = None
   \<and> sys_stat example_tree ''nothing'' = None
   \<and> NativeFilesystem_GetFilesize example_tree ''nothing'' = - 1
   \<and> \<not> NativeFilesystem_Exists example_tree ''nothing''
   \<and> \<not> NativeFilesystem_IsFile example_tree ''nothing''
   \<and> NativeFilesystem_CreateInputStreambuffer True example_tree ''nothing'' = None"
proof -
  have n: "sys_stat example_tree ''nothing'' = None"
    by (simp add: sys_stat_def example_tree_def eval_nat_numeral)
  have m: "MakePath example_env (saf_path example_fs) ''save.lsd'' = ''content://tree/save.lsd''"
    by (simp add: example_env_def example_fs_def)
  have r: "\<not> d_readable (kernel example_env 4)"
    by (simp add: example_handles example_dir_def)
  have a: "SafFilesystem_GetFilesize example_env example_fs ''nothing''
       = (- 1, [JniGetHandleForPath ''content://tree/nothing''])
     \<and> SafFilesystem_Exists example_env example_fs ''nothing''
       = (False, [JniGetHandleForPath ''content://tree/nothing''])
     \<and> NativeFilesystem_GetFilesize example_tree ''nothing'' = - 1
     \<and> \<not> NativeFilesystem_Exists example_tree ''nothing''
     \<and> \<not> NativeFilesystem_IsFile example_tree ''nothing''
     \<and> NativeFilesystem_CreateInputStreambuffer True example_tree ''nothing'' = None"
    using missing_path_queries [of example_env example_fs "''nothing''" True _ example_tree True] n
    by (simp add: example_handles example_handles_direct)
  have b: "SafFilesystem_GetFilesize example_env example_fs ''save.lsd''
       = (10, [JniGetHandleForPath ''content://tree/save.lsd'', JniGetFilesize])
     \<and> SafFilesystem_IsFile example_env example_fs ''save.lsd''
       = (True, [JniGetHandleForPath ''content://tree/save.lsd'', JniIsFile])"
    using missing_path_queries [of example_env example_fs "''save.lsd''" True
        "\<lparr>sf_isFile = 1, sf_isDirectory = 0, sf_exists = 1, sf_getFilesize = 10,
          sf_createInputFileDescriptor = 3\<rparr>" example_tree True]
      example_handles(1)
    by (simp add: m)
  have c: "fst (SafFilesystem_CreateInputStreambuffer example_env example_fs ''missing.lsd'') = None"
    using missing_path_queries [of example_env example_fs "''missing.lsd''" True
        "\<lparr>sf_isFile = 0, sf_isDirectory = 0, sf_exists = 0, sf_getFilesize = 0,
          sf_createInputFileDescriptor = 4\<rparr>" example_tree True]
      example_handles(2) r
    by simp
  show ?thesis
    using a b c n r example_handles(1,3) by simp
qed

subsection \<open>Native directory enumeration\<close>

text \<open>
  C9 fails on the code. \<open>games/Picture\<close> is a directory whose directory entry reports no
  type. The fallback probe is \<open>IsDirectory(name, true)\<close> on the bare entry name, which is
  resolved against the working directory and finds nothing there, so the entry is
  reported as a regular file. The pseudo-entries are skipped and the entries with a
  reported type are classified as the claim says.
\<close>

theorem GetDirectoryContent_probes_bare_name:
  "Platform_Directory example_tree ''games''
     = Some [(''.'', Directory), (''..'', Directory), (''Map0001.lmu'', File),
             (''Picture'', Unknown), (''Music'', Directory), (''RPG_RT.ini'', Unknown)]
   \<and> NativeFilesystem_IsDirectory example_tree ''games/Picture'' True
   \<and> \<not> NativeFilesystem_IsDirectory example_tree ''Picture'' True
   \<and> NativeFilesystem_GetDirectoryContent example_tree ''games'' []
     = (True, [(''Map0001.lmu'', Regular), (''Picture'', Regular),
               (''Music'', DirectoryEntry), (''RPG_RT.ini'', Regular)], [])"
proof -
  have d: "Platform_Directory example_tree ''games''
     = Some [(''.'', Directory), (''..'', Directory), (''Map0001.lmu'', File),
             (''Picture'', Unknown), (''Music'', Directory), (''RPG_RT.ini'', Unknown)]"
    by (simp add: Platform_Directory_def sys_stat_def example_tree_def eval_nat_numeral)
  have e: "NativeFilesystem_IsDirectory example_tree ''games/Picture'' True"
    by (simp add: NativeFilesystem_IsDirectory_def Platform_File_IsDirectory_def
        Platform_File_GetType_def sys_stat_def example_tree_def eval_nat_numeral)
  have p: "\<not> NativeFilesystem_IsDirectory example_tree ''Picture'' True"
    "\<not> NativeFilesystem_IsDirectory example_tree ''RPG_RT.ini'' True"
    by (simp_all add: NativeFilesystem_IsDirectory_def Platform_File_IsDirectory_def
        Platform_File_GetType_def sys_stat_def example_tree_def eval_nat_numeral)
  show ?thesis
    by (simp add: d e p NativeFilesystem_GetDirectoryContent_def)
qed


subsection \<open>The buffered descriptor output stream\<close>

lemma sys_write_le: "fst (sys_write f bs) \<le> int (length bs)"
  by (simp add: sys_write_def split: list.splits)

lemma sys_write_full:
  "int (length bs) \<le> fst (sys_write f bs) \<Longrightarrow>
     o_written (snd (sys_write f bs)) = o_written f @ bs"
  by (auto simp add: sys_write_def min_def split: list.splits if_splits)

lemma sys_write_accept_all:
  "o_accept f = [] \<Longrightarrow> sys_write f bs = (int (length bs), f\<lparr>o_written := o_written f @ bs\<rparr>)"
  by (simp add: sys_write_def)

lemma length_pending: "out_ok s \<Longrightarrow> length (pending s) = out_pptr s - out_pbase s"
  by (auto simp add: pending_def out_ok_def buffer_end_def)

lemma sync_empty: "out_pptr s = out_pbase s \<Longrightarrow> sync s = (0, s)"
  by (simp add: sync_def)

lemma sync_nonempty:
  "out_pptr s \<noteq> out_pbase s \<Longrightarrow>
     sync s = ((if fst (sys_write (out_desc s) (pending s)) < int (out_pptr s) - int (out_pbase s)
                then - 1 else 0),
               s\<lparr>out_desc := snd (sys_write (out_desc s) (pending s)),
                 out_calls := out_calls s @ [SysWrite (out_fd s) (pending s)],
                 out_pbase := buffer_start, out_pptr := buffer_start, out_epptr := buffer_end\<rparr>)"
  by (simp add: sync_def Let_def setp_def split: prod.splits)

lemma sync_calls:
  "out_calls (snd (sync s))
     = out_calls s @ (if out_pptr s = out_pbase s then [] else [SysWrite (out_fd s) (pending s)])"
  by (simp add: sync_empty sync_nonempty)

lemma sync_fd: "out_fd (snd (sync s)) = out_fd s"
  by (cases "out_pptr s = out_pbase s") (simp_all add: sync_empty sync_nonempty)

lemma sync_result: "fst (sync s) = 0 \<or> fst (sync s) = - 1"
  by (cases "out_pptr s = out_pbase s") (simp_all add: sync_empty sync_nonempty)

lemma sync_short:
  assumes "out_pptr s \<noteq> out_pbase s"
    and "fst (sys_write (out_desc s) (pending s)) < int (out_pptr s) - int (out_pbase s)"
  shows "fst (sync s) = - 1"
    and "out_calls (snd (sync s)) = out_calls s @ [SysWrite (out_fd s) (pending s)]"
    and "pending (snd (sync s)) = []"
  using assms by (simp_all add: sync_nonempty pending_def)

lemma sync_success_written:
  assumes "out_ok s" "fst (sync s) = 0"
  shows "o_written (out_desc (snd (sync s))) = o_written (out_desc s) @ pending s"
proof (cases "out_pptr s = out_pbase s")
  case True
  then show ?thesis by (simp add: sync_empty pending_def)
next
  case False
  with assms(2) have "\<not> fst (sys_write (out_desc s) (pending s)) < int (out_pptr s) - int (out_pbase s)"
    by (simp add: sync_nonempty split: if_splits)
  moreover have "int (length (pending s)) = int (out_pptr s) - int (out_pbase s)"
    using assms(1) by (simp add: length_pending out_ok_def)
  ultimately have "int (length (pending s)) \<le> fst (sys_write (out_desc s) (pending s))"
    by simp
  from sys_write_full [OF this] False show ?thesis
    by (simp add: sync_nonempty)
qed

lemma overflow_sync_failed:
  "fst (sync s) < 0 \<Longrightarrow> overflow s c = (traits_eof, snd (sync s))"
  by (cases "sync s") (simp add: overflow_def)

lemma overflow_sync_ok:
  "\<not> fst (sync s) < 0 \<Longrightarrow> c \<noteq> traits_eof \<Longrightarrow>
     overflow s c =
       ((if fst (sys_write (out_desc (snd (sync s))) [word_of_int c]) < 1 then traits_eof else c),
        (snd (sync s))\<lparr>out_desc := snd (sys_write (out_desc (snd (sync s))) [word_of_int c]),
           out_calls := out_calls (snd (sync s)) @ [SysWrite (out_fd (snd (sync s))) [word_of_int c]]\<rparr>)"
  by (cases "sync s"; cases "sys_write (out_desc (snd (sync s))) [word_of_int c]")
    (simp add: overflow_def Let_def)

lemma overflow_success_written:
  assumes "out_ok s" "fst (overflow s c) \<noteq> traits_eof"
  shows "o_written (out_desc (snd (overflow s c)))
           = o_written (out_desc s) @ pending s @ [word_of_int c]"
proof -
  have ok: "\<not> fst (sync s) < 0"
    using assms(2) overflow_sync_failed [of s c] by auto
  then have z: "fst (sync s) = 0" using sync_result [of s] by auto
  have c: "c \<noteq> traits_eof"
    using assms(2) ok by (cases "sync s") (auto simp add: overflow_def split: if_splits)
  note e = overflow_sync_ok [OF ok c]
  have "\<not> fst (sys_write (out_desc (snd (sync s))) [word_of_int c]) < 1"
    using assms(2) by (simp add: e split: if_splits)
  then have "int (length [word_of_int c :: byte]) \<le> fst (sys_write (out_desc (snd (sync s))) [word_of_int c])"
    by simp
  from sys_write_full [OF this]
  show ?thesis
    by (simp add: e sync_success_written [OF assms(1) z])
qed

lemma dtor_eq:
  "FdStreamBufOut_dtor s =
     (snd (sync s))\<lparr>out_desc := sys_close (out_desc (snd (sync s))),
        out_calls := out_calls (snd (sync s)) @ [SysClose (out_fd s)]\<rparr>"
  by (cases "sync s") (use sync_fd [of s] in \<open>simp add: FdStreamBufOut_dtor_def\<close>)

lemma dtor_calls:
  "out_calls (FdStreamBufOut_dtor s)
     = out_calls s @ (if out_pptr s = out_pbase s then [] else [SysWrite (out_fd s) (pending s)])
         @ [SysClose (out_fd s)]"
  by (simp add: dtor_eq sync_calls)

lemma dtor_closed: "o_closed (out_desc (FdStreamBufOut_dtor s))"
  by (simp add: dtor_eq sys_close_def)

lemma dtor_written:
  "o_accept (out_desc s) = [] \<Longrightarrow>
     o_written (out_desc (FdStreamBufOut_dtor s)) = o_written (out_desc s) @ pending s"
  by (cases "out_pptr s = out_pbase s")
    (simp_all add: dtor_eq sync_empty sync_nonempty sys_close_def sys_write_accept_all pending_def)

lemma pending_put:
  assumes "out_pbase s \<le> out_pptr s" "out_pptr s < length (out_buffer s)"
  shows "pending (s\<lparr>out_buffer := (out_buffer s)[out_pptr s := c], out_pptr := out_pptr s + 1\<rparr>)
           = pending s @ [c]"
proof -
  let ?k = "out_pptr s - out_pbase s"
  let ?ys = "drop (out_pbase s) (out_buffer s)"
  have k: "?k < length ?ys" using assms by simp
  have "drop (out_pbase s) ((out_buffer s)[out_pptr s := c]) = ?ys[?k := c]"
    using assms(1) by (simp add: drop_update_swap)
  moreover have "take (Suc ?k) (?ys[?k := c]) = take ?k ?ys @ [c]"
    using k by (simp add: take_Suc_conv_app_nth)
  moreover have "out_pptr s + 1 - out_pbase s = Suc ?k"
    using assms(1) by simp
  ultimately show ?thesis
    by (simp add: pending_def)
qed

lemma pending_reset: "out_pptr s = out_pbase s \<Longrightarrow> pending s = []"
  by (simp add: pending_def)

lemma pending_desc_calls [simp]:
  "pending (s\<lparr>out_desc := d, out_calls := cs\<rparr>) = pending s"
  by (simp add: pending_def)

lemma sputc_accepting:
  assumes "out_ok s" "o_accept (out_desc s) = []"
  shows "fst (sputc s c) \<noteq> traits_eof \<and> out_ok (snd (sputc s c))
     \<and> o_accept (out_desc (snd (sputc s c))) = []
     \<and> handed (snd (sputc s c)) = handed s @ [c]"
proof (cases "out_pptr s < out_epptr s")
  case True
  have bs: "buffer_end < buffer_size" by (simp add: buffer_end_def buffer_size_def)
  have lt: "out_pptr s < length (out_buffer s)"
    using assms(1) True bs by (simp add: out_ok_def)
  have pb: "out_pbase s \<le> out_pptr s" using assms(1) by (simp add: out_ok_def)
  have 1: "fst (sputc s c) \<noteq> traits_eof" using True by (simp add: sputc_def to_int_type_not_eof)
  have 2: "out_ok (snd (sputc s c))" using True assms(1) by (simp add: sputc_def out_ok_def)
  have 3: "o_accept (out_desc (snd (sputc s c))) = []" using True assms(2) by (simp add: sputc_def)
  have 4: "handed (snd (sputc s c)) = handed s @ [c]"
    using True pending_put [OF pb lt, of c] by (simp add: sputc_def handed_def)
  from 1 2 3 4 show ?thesis by blast
next
  case False
  have bs: "buffer_end < buffer_size" by (simp add: buffer_end_def buffer_size_def)
  have w: "word_of_int (to_int_type c) = c" by (simp add: to_int_type_def)
  have ne: "to_int_type c \<noteq> traits_eof" by (rule to_int_type_not_eof)
  have o: "sputc s c = overflow s (to_int_type c)" using False by (simp add: sputc_def)
  have 1: "fst (sputc s c) \<noteq> traits_eof"
    using assms(2) ne
    by (cases "out_pptr s = out_pbase s")
      (simp_all add: o overflow_def sync_empty sync_nonempty sys_write_accept_all Let_def
        length_pending [OF assms(1)] out_ok_def)
  have 2: "out_ok (snd (sputc s c))"
    using assms ne bs
    by (cases "out_pptr s = out_pbase s")
      (simp_all add: o overflow_def sync_empty sync_nonempty sys_write_accept_all Let_def
        length_pending [OF assms(1)] out_ok_def buffer_start_def)
  have 3: "o_accept (out_desc (snd (sputc s c))) = []"
    using assms ne
    by (cases "out_pptr s = out_pbase s")
      (simp_all add: o overflow_def sync_empty sync_nonempty sys_write_accept_all Let_def
        length_pending [OF assms(1)])
  have 4: "handed (snd (sputc s c)) = handed s @ [c]"
    using assms ne w
    by (cases "out_pptr s = out_pbase s")
      (simp_all add: o overflow_def sync_empty sync_nonempty sys_write_accept_all Let_def
        length_pending [OF assms(1)] handed_def pending_reset)
  from 1 2 3 4 show ?thesis by blast
qed

lemma sputn_accepting:
  "out_ok s \<Longrightarrow> o_accept (out_desc s) = [] \<Longrightarrow>
     fst (sputn s bs) = length bs \<and> out_ok (snd (sputn s bs))
     \<and> o_accept (out_desc (snd (sputn s bs))) = []
     \<and> handed (snd (sputn s bs)) = handed s @ bs"
proof (induction bs arbitrary: s)
  case Nil
  then show ?case by simp
next
  case (Cons c cs)
  note a = sputc_accepting [OF Cons.prems, of c]
  from a have ih: "fst (sputn (snd (sputc s c)) cs) = length cs
     \<and> out_ok (snd (sputn (snd (sputc s c)) cs))
     \<and> o_accept (out_desc (snd (sputn (snd (sputc s c)) cs))) = []
     \<and> handed (snd (sputn (snd (sputc s c)) cs)) = handed (snd (sputc s c)) @ cs"
    using Cons.IH [of "snd (sputc s c)"] by blast
  show ?case
    using a ih by (cases "sputc s c"; cases "sputn (snd (sputc s c)) cs") simp
qed

lemma ctor_ok: "out_ok (FdStreamBufOut_ctor fd d)"
  by (simp add: FdStreamBufOut_ctor_def setp_def out_ok_def buffer_start_def)

lemma ctor_fields:
  "out_desc (FdStreamBufOut_ctor fd d) = d" "pending (FdStreamBufOut_ctor fd d) = []"
  by (simp_all add: FdStreamBufOut_ctor_def setp_def pending_def)

text \<open>
  C4. The destructor flushes and then closes: the bytes written to the stream and not
  yet flushed are handed to the backend in one \<open>write\<close> issued before the \<open>close\<close>, and
  the descriptor is closed whatever that write returns; the destructor has no result
  through which a failure could show. With a backend that accepts what it is given, the
  bytes written reach it: after any sequence of bytes put into a fresh stream,
  destroying it leaves exactly these bytes written.
\<close>

theorem dtor_flushes_then_closes:
  "out_calls (FdStreamBufOut_dtor s)
     = out_calls s @ (if out_pptr s = out_pbase s then [] else [SysWrite (out_fd s) (pending s)])
         @ [SysClose (out_fd s)]
   \<and> o_closed (out_desc (FdStreamBufOut_dtor s))
   \<and> (o_accept (out_desc s) = []
        \<longrightarrow> o_written (out_desc (FdStreamBufOut_dtor s)) = o_written (out_desc s) @ pending s)
   \<and> (o_accept d = []
        \<longrightarrow> fst (sputn (FdStreamBufOut_ctor fd d) bs) = length bs
          \<and> o_written (out_desc (FdStreamBufOut_dtor (snd (sputn (FdStreamBufOut_ctor fd d) bs))))
               = o_written d @ bs)"
proof -
  have rt: "o_accept d = []
        \<longrightarrow> fst (sputn (FdStreamBufOut_ctor fd d) bs) = length bs
          \<and> o_written (out_desc (FdStreamBufOut_dtor (snd (sputn (FdStreamBufOut_ctor fd d) bs))))
               = o_written d @ bs"
  proof
    assume a: "o_accept d = []"
    let ?s = "FdStreamBufOut_ctor fd d"
    have a': "o_accept (out_desc ?s) = []" using a by (simp add: ctor_fields)
    note p = sputn_accepting [OF ctor_ok a', of bs]
    from p have acc: "o_accept (out_desc (snd (sputn ?s bs))) = []" by blast
    from p have h: "handed (snd (sputn ?s bs)) = handed ?s @ bs" by blast
    have "o_written (out_desc (FdStreamBufOut_dtor (snd (sputn ?s bs)))) = handed (snd (sputn ?s bs))"
      by (simp add: dtor_written [OF acc] handed_def)
    also have "\<dots> = o_written d @ bs"
      unfolding h by (simp add: handed_def ctor_fields)
    finally show "fst (sputn ?s bs) = length bs
          \<and> o_written (out_desc (FdStreamBufOut_dtor (snd (sputn ?s bs)))) = o_written d @ bs"
      using p by blast
  qed
  show ?thesis
    using rt dtor_calls [of s] dtor_closed [of s] dtor_written [of s] by blast
qed

theorem dtor_flushes_then_closes_witness:
  "o_accept \<lparr>o_written = [], o_accept = [], o_closed = False\<rparr> = []
   \<and> fst (sputn (FdStreamBufOut_ctor 5 \<lparr>o_written = [], o_accept = [], o_closed = False\<rparr>)
        [1, 2, 3]) = 3
   \<and> o_written (out_desc (FdStreamBufOut_dtor (snd (sputn
        (FdStreamBufOut_ctor 5 \<lparr>o_written = [], o_accept = [], o_closed = False\<rparr>) [1, 2, 3]))))
       = [1, 2, 3]
   \<and> out_calls (FdStreamBufOut_dtor example_out) = [SysWrite 5 [1, 2, 3], SysClose 5]
   \<and> o_closed (out_desc (FdStreamBufOut_dtor example_out))
   \<and> o_written (out_desc (FdStreamBufOut_dtor example_out)) = [1]
   \<and> o_accept (out_desc example_out_accepting) = []
   \<and> o_written (out_desc (FdStreamBufOut_dtor example_out_accepting)) = [1, 2, 3]"
proof -
  have e: "out_calls example_out = []" "out_fd example_out = 5" "pending example_out = [1, 2, 3]"
    "out_pptr example_out \<noteq> out_pbase example_out"
    by (simp_all add: example_out_def pending_def)
  have e': "o_accept (out_desc example_out_accepting) = []"
    "o_written (out_desc example_out_accepting) = []"
    "pending example_out_accepting = [1, 2, 3]"
    by (simp_all add: example_out_accepting_def example_out_def pending_def)
  have w: "sys_write (out_desc example_out) [1, 2, 3]
      = (1, \<lparr>o_written = [1], o_accept = [], o_closed = False\<rparr>)"
    by (simp add: example_out_def sys_write_def)
  have d: "o_written (out_desc (FdStreamBufOut_dtor example_out)) = [1]"
    by (simp add: dtor_eq sync_nonempty [OF e(4)] e(3) w sys_close_def)
  have a: "o_written (out_desc (FdStreamBufOut_dtor example_out_accepting)) = [1, 2, 3]"
    using dtor_flushes_then_closes [of example_out_accepting] e'
    by simp
  show ?thesis
    using dtor_flushes_then_closes [of example_out "\<lparr>o_written = [], o_accept = [], o_closed = False\<rparr>"
        5 "[1, 2, 3]"] a
    by (simp add: e d e'(1))
qed

subsection \<open>Short writes through the output stream\<close>

lemma pending_after_sync: "pending (snd (sync s)) = []"
  by (cases "out_pptr s = out_pbase s")
    (simp_all add: sync_empty sync_nonempty pending_def)

lemma out_ok_after_sync: "out_ok s \<Longrightarrow> out_ok (snd (sync s))"
  by (cases "out_pptr s = out_pbase s")
    (simp_all add: sync_empty sync_nonempty out_ok_def buffer_start_def)

lemma overflow_put_area:
  "out_pbase (snd (overflow s c)) = out_pbase (snd (sync s))"
  "out_pptr (snd (overflow s c)) = out_pptr (snd (sync s))"
  "out_epptr (snd (overflow s c)) = out_epptr (snd (sync s))"
  "out_buffer (snd (overflow s c)) = out_buffer (snd (sync s))"
  by (cases "sync s"; cases "sys_write (out_desc (snd (sync s))) [word_of_int c]";
      simp add: overflow_def Let_def)+

lemma pending_after_overflow: "pending (snd (overflow s c)) = []"
  using pending_after_sync [of s] by (simp add: pending_def overflow_put_area)

lemma out_ok_after_overflow: "out_ok s \<Longrightarrow> out_ok (snd (overflow s c))"
  using out_ok_after_sync [of s] by (simp add: out_ok_def overflow_put_area)

lemma sputc_full: "\<not> out_pptr s < out_epptr s \<Longrightarrow> sputc s c = overflow s (to_int_type c)"
  by (simp add: sputc_def)

lemma sputc_ok_handed:
  assumes "out_ok s" "fst (sputc s c) \<noteq> traits_eof"
  shows "out_ok (snd (sputc s c)) \<and> handed (snd (sputc s c)) = handed s @ [c]"
proof (cases "out_pptr s < out_epptr s")
  case True
  have bs: "buffer_end < buffer_size" by (simp add: buffer_end_def buffer_size_def)
  have lt: "out_pptr s < length (out_buffer s)"
    using assms(1) True bs by (simp add: out_ok_def)
  have pb: "out_pbase s \<le> out_pptr s" using assms(1) by (simp add: out_ok_def)
  have 2: "out_ok (snd (sputc s c))" using True assms(1) by (simp add: sputc_def out_ok_def)
  have 4: "handed (snd (sputc s c)) = handed s @ [c]"
    using True pending_put [OF pb lt, of c] by (simp add: sputc_def handed_def)
  from 2 4 show ?thesis by blast
next
  case False
  note o = sputc_full [OF False, of c]
  have w: "word_of_int (to_int_type c) = c" by (simp add: to_int_type_def)
  have ne: "fst (overflow s (to_int_type c)) \<noteq> traits_eof" using assms(2) by (simp add: o)
  have "o_written (out_desc (snd (overflow s (to_int_type c))))
      = o_written (out_desc s) @ pending s @ [c]"
    using overflow_success_written [OF assms(1) ne] by (simp add: w)
  then have "handed (snd (sputc s c)) = handed s @ [c]"
    by (simp add: o handed_def pending_after_overflow)
  then show ?thesis
    using out_ok_after_overflow [OF assms(1), of "to_int_type c"] by (simp add: o)
qed

lemma sputn_stops: "fst (sputc s c) = traits_eof \<Longrightarrow> sputn s (c # cs) = (0, snd (sputc s c))"
  by (cases "sputc s c") simp

lemma sputn_ok_handed:
  "out_ok s \<Longrightarrow> fst (sputn s bs) = length bs \<Longrightarrow>
     out_ok (snd (sputn s bs)) \<and> handed (snd (sputn s bs)) = handed s @ bs"
proof (induction bs arbitrary: s)
  case Nil
  then show ?case by simp
next
  case (Cons c cs)
  have ne: "fst (sputc s c) \<noteq> traits_eof"
    using Cons.prems(2) by (cases "sputc s c") (auto split: if_splits)
  note a = sputc_ok_handed [OF Cons.prems(1) ne]
  have e: "sputn s (c # cs) = (Suc (fst (sputn (snd (sputc s c)) cs)), snd (sputn (snd (sputc s c)) cs))"
    using ne by (cases "sputc s c"; cases "sputn (snd (sputc s c)) cs") simp
  have l: "fst (sputn (snd (sputc s c)) cs) = length cs"
    using Cons.prems(2) unfolding e by simp
  from a have ok: "out_ok (snd (sputc s c))" by blast
  note ih = Cons.IH [OF ok l]
  show ?case
    unfolding e using a ih by simp
qed

lemma sync_ok_handed:
  "out_ok s \<Longrightarrow> fst (sync s) = 0 \<Longrightarrow> o_written (out_desc (snd (sync s))) = handed s"
  by (simp add: sync_success_written handed_def)

lemma not_good_ops:
  assumes "\<not> good os"
  shows "ostream_put os c = os\<lparr>os_failbit := True\<rparr>"
    and "ostream_write os bs = os\<lparr>os_failbit := True\<rparr>"
    and "ostream_flush os = os\<lparr>os_failbit := True\<rparr>"
  using assms by (simp_all add: ostream_put_def ostream_write_def ostream_flush_def sentry_def)

lemma good_put:
  "good os \<Longrightarrow> ostream_put os c
     = os\<lparr>os_rdbuf := snd (sputc (os_rdbuf os) c),
          os_badbit := (fst (sputc (os_rdbuf os) c) = traits_eof)\<rparr>"
  by (cases "sputc (os_rdbuf os) c") (simp add: ostream_put_def sentry_def good_def)

lemma good_write:
  "good os \<Longrightarrow> ostream_write os bs
     = os\<lparr>os_rdbuf := snd (sputn (os_rdbuf os) bs),
          os_badbit := (fst (sputn (os_rdbuf os) bs) \<noteq> length bs)\<rparr>"
  by (cases "sputn (os_rdbuf os) bs") (simp add: ostream_write_def sentry_def good_def)

lemma good_flush:
  "good os \<Longrightarrow> ostream_flush os
     = os\<lparr>os_rdbuf := snd (sync (os_rdbuf os)),
          os_badbit := (fst (sync (os_rdbuf os)) = - 1)\<rparr>"
  by (cases "sync (os_rdbuf os)") (simp add: ostream_flush_def sentry_def good_def)

lemma not_good_run_op: "\<not> good os \<Longrightarrow> os_rdbuf (run_op os x) = os_rdbuf os \<and> \<not> good (run_op os x)"
  by (cases x) (simp_all add: not_good_ops good_def)

lemma not_good_run_ops:
  "\<not> good os \<Longrightarrow> os_rdbuf (run_ops os xs) = os_rdbuf os \<and> \<not> good (run_ops os xs)"
proof (induction xs arbitrary: os)
  case Nil
  then show ?case by simp
next
  case (Cons x xs)
  from not_good_run_op [OF Cons.prems, of x]
  have a: "os_rdbuf (run_op os x) = os_rdbuf os" and b: "\<not> good (run_op os x)" by blast+
  from Cons.IH [OF b] a show ?case by simp
qed

lemma good_run_op_handed:
  assumes "out_ok (os_rdbuf os)" "good (run_op os x)"
  shows "out_ok (os_rdbuf (run_op os x))
     \<and> handed (os_rdbuf (run_op os x)) = handed (os_rdbuf os) @ op_bytes x"
proof -
  have g: "good os"
    using assms(2) not_good_run_op [of os x] by blast
  show ?thesis
  proof (cases x)
    case (Put c)
    have "fst (sputc (os_rdbuf os) c) \<noteq> traits_eof"
      using assms(2) by (simp add: Put good_put [OF g] good_def)
    from sputc_ok_handed [OF assms(1) this] show ?thesis
      by (simp add: Put good_put [OF g])
  next
    case (Write bs)
    have "fst (sputn (os_rdbuf os) bs) = length bs"
      using assms(2) by (simp add: Write good_write [OF g] good_def)
    from sputn_ok_handed [OF assms(1) this] show ?thesis
      by (simp add: Write good_write [OF g])
  next
    case Flush
    have "fst (sync (os_rdbuf os)) \<noteq> - 1"
      using assms(2) by (simp add: Flush good_flush [OF g] good_def)
    then have z: "fst (sync (os_rdbuf os)) = 0"
      using sync_result [of "os_rdbuf os"] by blast
    show ?thesis
      using sync_ok_handed [OF assms(1) z] out_ok_after_sync [OF assms(1)]
      by (simp add: Flush good_flush [OF g] handed_def [of "snd (sync (os_rdbuf os))"]
          pending_after_sync)
  qed
qed

lemma good_run_ops_handed:
  "out_ok (os_rdbuf os) \<Longrightarrow> good (run_ops os xs) \<Longrightarrow>
     handed (os_rdbuf (run_ops os xs)) = handed (os_rdbuf os) @ concat (map op_bytes xs)"
proof (induction xs arbitrary: os)
  case Nil
  then show ?case by simp
next
  case (Cons x xs)
  have g: "good (run_op os x)"
    using Cons.prems(2) not_good_run_ops [of "run_op os x" xs] by auto
  note a = good_run_op_handed [OF Cons.prems(1) g]
  from a have ok: "out_ok (os_rdbuf (run_op os x))" by blast
  have "good (run_ops (run_op os x) xs)" using Cons.prems(2) by simp
  from Cons.IH [OF ok this] a show ?case by simp
qed

lemma sync_accepting:
  "out_ok s \<Longrightarrow> o_accept (out_desc s) = [] \<Longrightarrow> fst (sync s) = 0"
  by (cases "out_pptr s = out_pbase s")
    (simp_all add: sync_empty sync_nonempty sys_write_accept_all length_pending out_ok_def)

text \<open>
  C3. A short write issued by the stream's buffer makes the operation fail: \<open>sync\<close>
  returns \<open>-1\<close> and \<open>overflow\<close> returns \<open>EOF\<close>, the stream operation that ran them leaves
  the stream in the failed state, and the short write is the last low-level write of the
  call. From then on every operation on the stream fails without reaching the buffer or
  the backend. Whenever \<open>sync\<close> or \<open>overflow\<close> has run, the writeback buffer is empty, so
  the bytes a short write did not take are gone, but never silently: as long as the
  stream reports no failure, every byte put into it has been written or is still
  pending, and after a flush that reports no failure all of them are written.
\<close>

theorem short_write_fails_stream:
  assumes "out_ok (os_rdbuf os)" and "good os"
  shows "(out_pptr (os_rdbuf os) \<noteq> out_pbase (os_rdbuf os)
          \<and> fst (sys_write (out_desc (os_rdbuf os)) (pending (os_rdbuf os)))
              < int (length (pending (os_rdbuf os)))
        \<longrightarrow> fst (sync (os_rdbuf os)) = - 1
          \<and> \<not> good (ostream_flush os)
          \<and> out_calls (os_rdbuf (ostream_flush os))
               = out_calls (os_rdbuf os) @ [SysWrite (out_fd (os_rdbuf os)) (pending (os_rdbuf os))]
          \<and> (\<not> out_pptr (os_rdbuf os) < out_epptr (os_rdbuf os)
              \<longrightarrow> fst (overflow (os_rdbuf os) (to_int_type c)) = traits_eof
                \<and> \<not> good (ostream_put os c) \<and> \<not> good (ostream_write os (c # cs))
                \<and> out_calls (os_rdbuf (ostream_put os c))
                     = out_calls (os_rdbuf os)
                         @ [SysWrite (out_fd (os_rdbuf os)) (pending (os_rdbuf os))]
                \<and> out_calls (os_rdbuf (ostream_write os (c # cs)))
                     = out_calls (os_rdbuf os)
                         @ [SysWrite (out_fd (os_rdbuf os)) (pending (os_rdbuf os))]))
   \<and> (\<not> out_pptr (os_rdbuf os) < out_epptr (os_rdbuf os)
          \<and> fst (sync (os_rdbuf os)) = 0
          \<and> fst (sys_write (out_desc (snd (sync (os_rdbuf os)))) [c]) < 1
        \<longrightarrow> fst (overflow (os_rdbuf os) (to_int_type c)) = traits_eof
          \<and> \<not> good (ostream_put os c) \<and> \<not> good (ostream_write os (c # cs))
          \<and> out_calls (os_rdbuf (ostream_put os c))
               = out_calls (snd (sync (os_rdbuf os))) @ [SysWrite (out_fd (os_rdbuf os)) [c]]
          \<and> out_calls (os_rdbuf (ostream_write os (c # cs)))
               = out_calls (snd (sync (os_rdbuf os))) @ [SysWrite (out_fd (os_rdbuf os)) [c]])
   \<and> pending (snd (sync (os_rdbuf os))) = []
   \<and> pending (snd (overflow (os_rdbuf os) k)) = []
   \<and> (\<not> good os' \<longrightarrow> os_rdbuf (run_ops os' ops) = os_rdbuf os' \<and> \<not> good (run_ops os' ops))
   \<and> (good (run_ops os ops)
        \<longrightarrow> handed (os_rdbuf (run_ops os ops))
              = handed (os_rdbuf os) @ concat (map op_bytes ops))
   \<and> (good (ostream_flush os)
        \<longrightarrow> o_written (out_desc (os_rdbuf (ostream_flush os))) = handed (os_rdbuf os)
          \<and> pending (os_rdbuf (ostream_flush os)) = [])"
proof -
  let ?b = "os_rdbuf os"
  have len: "int (length (pending ?b)) = int (out_pptr ?b) - int (out_pbase ?b)"
    using assms(1) by (simp add: length_pending out_ok_def)
  have w: "word_of_int (to_int_type c) = c" by (simp add: to_int_type_def)
  have ne: "to_int_type c \<noteq> traits_eof" by (rule to_int_type_not_eof)
  have A: "out_pptr ?b \<noteq> out_pbase ?b
          \<and> fst (sys_write (out_desc ?b) (pending ?b)) < int (length (pending ?b))
        \<longrightarrow> fst (sync ?b) = - 1
          \<and> \<not> good (ostream_flush os)
          \<and> out_calls (os_rdbuf (ostream_flush os))
               = out_calls ?b @ [SysWrite (out_fd ?b) (pending ?b)]
          \<and> (\<not> out_pptr ?b < out_epptr ?b
              \<longrightarrow> fst (overflow ?b (to_int_type c)) = traits_eof
                \<and> \<not> good (ostream_put os c) \<and> \<not> good (ostream_write os (c # cs))
                \<and> out_calls (os_rdbuf (ostream_put os c))
                     = out_calls ?b @ [SysWrite (out_fd ?b) (pending ?b)]
                \<and> out_calls (os_rdbuf (ostream_write os (c # cs)))
                     = out_calls ?b @ [SysWrite (out_fd ?b) (pending ?b)])"
  proof
    assume h: "out_pptr ?b \<noteq> out_pbase ?b
          \<and> fst (sys_write (out_desc ?b) (pending ?b)) < int (length (pending ?b))"
    then have n: "out_pptr ?b \<noteq> out_pbase ?b"
      and sh: "fst (sys_write (out_desc ?b) (pending ?b)) < int (out_pptr ?b) - int (out_pbase ?b)"
      by (simp_all add: len)
    note f = sync_short [OF n sh]
    have neg: "fst (sync ?b) < 0" by (simp add: f(1))
    note o = overflow_sync_failed [OF neg, of "to_int_type c"]
    have fl: "\<not> good (ostream_flush os)
          \<and> out_calls (os_rdbuf (ostream_flush os))
               = out_calls ?b @ [SysWrite (out_fd ?b) (pending ?b)]"
      by (simp add: good_flush [OF assms(2)] good_def f)
    have full: "\<not> out_pptr ?b < out_epptr ?b
              \<longrightarrow> fst (overflow ?b (to_int_type c)) = traits_eof
                \<and> \<not> good (ostream_put os c) \<and> \<not> good (ostream_write os (c # cs))
                \<and> out_calls (os_rdbuf (ostream_put os c))
                     = out_calls ?b @ [SysWrite (out_fd ?b) (pending ?b)]
                \<and> out_calls (os_rdbuf (ostream_write os (c # cs)))
                     = out_calls ?b @ [SysWrite (out_fd ?b) (pending ?b)]"
    proof
      assume fu: "\<not> out_pptr ?b < out_epptr ?b"
      have sp: "sputc ?b c = (traits_eof, snd (sync ?b))"
        by (simp add: sputc_full [OF fu] o)
      then have e: "fst (sputc ?b c) = traits_eof" by simp
      have sn: "sputn ?b (c # cs) = (0, snd (sync ?b))"
        using sputn_stops [OF e, of cs] by (simp add: sp)
      show "fst (overflow ?b (to_int_type c)) = traits_eof
                \<and> \<not> good (ostream_put os c) \<and> \<not> good (ostream_write os (c # cs))
                \<and> out_calls (os_rdbuf (ostream_put os c))
                     = out_calls ?b @ [SysWrite (out_fd ?b) (pending ?b)]
                \<and> out_calls (os_rdbuf (ostream_write os (c # cs)))
                     = out_calls ?b @ [SysWrite (out_fd ?b) (pending ?b)]"
        by (simp add: o good_put [OF assms(2)] good_write [OF assms(2)] good_def sp sn f)
    qed
    from f(1) fl full
    show "fst (sync ?b) = - 1
          \<and> \<not> good (ostream_flush os)
          \<and> out_calls (os_rdbuf (ostream_flush os))
               = out_calls ?b @ [SysWrite (out_fd ?b) (pending ?b)]
          \<and> (\<not> out_pptr ?b < out_epptr ?b
              \<longrightarrow> fst (overflow ?b (to_int_type c)) = traits_eof
                \<and> \<not> good (ostream_put os c) \<and> \<not> good (ostream_write os (c # cs))
                \<and> out_calls (os_rdbuf (ostream_put os c))
                     = out_calls ?b @ [SysWrite (out_fd ?b) (pending ?b)]
                \<and> out_calls (os_rdbuf (ostream_write os (c # cs)))
                     = out_calls ?b @ [SysWrite (out_fd ?b) (pending ?b)])"
      by blast
  qed
  have B: "\<not> out_pptr ?b < out_epptr ?b
          \<and> fst (sync ?b) = 0
          \<and> fst (sys_write (out_desc (snd (sync ?b))) [c]) < 1
        \<longrightarrow> fst (overflow ?b (to_int_type c)) = traits_eof
          \<and> \<not> good (ostream_put os c) \<and> \<not> good (ostream_write os (c # cs))
          \<and> out_calls (os_rdbuf (ostream_put os c))
               = out_calls (snd (sync ?b)) @ [SysWrite (out_fd ?b) [c]]
          \<and> out_calls (os_rdbuf (ostream_write os (c # cs)))
               = out_calls (snd (sync ?b)) @ [SysWrite (out_fd ?b) [c]]"
  proof
    assume h: "\<not> out_pptr ?b < out_epptr ?b
          \<and> fst (sync ?b) = 0
          \<and> fst (sys_write (out_desc (snd (sync ?b))) [c]) < 1"
    then have fu: "\<not> out_pptr ?b < out_epptr ?b" and ok: "\<not> fst (sync ?b) < 0"
      and sh: "fst (sys_write (out_desc (snd (sync ?b))) [c]) < 1"
      by simp_all
    note o = overflow_sync_ok [OF ok ne]
    have ov: "overflow ?b (to_int_type c)
        = (traits_eof,
           (snd (sync ?b))\<lparr>out_desc := snd (sys_write (out_desc (snd (sync ?b))) [c]),
              out_calls := out_calls (snd (sync ?b)) @ [SysWrite (out_fd ?b) [c]]\<rparr>)"
      using sh by (simp add: o w sync_fd)
    have sp: "sputc ?b c = overflow ?b (to_int_type c)"
      by (rule sputc_full [OF fu])
    have e: "fst (sputc ?b c) = traits_eof" by (simp add: sp ov)
    have sn: "sputn ?b (c # cs) = (0, snd (overflow ?b (to_int_type c)))"
      using sputn_stops [OF e, of cs] by (simp add: sp)
    show "fst (overflow ?b (to_int_type c)) = traits_eof
          \<and> \<not> good (ostream_put os c) \<and> \<not> good (ostream_write os (c # cs))
          \<and> out_calls (os_rdbuf (ostream_put os c))
               = out_calls (snd (sync ?b)) @ [SysWrite (out_fd ?b) [c]]
          \<and> out_calls (os_rdbuf (ostream_write os (c # cs)))
               = out_calls (snd (sync ?b)) @ [SysWrite (out_fd ?b) [c]]"
      by (simp add: good_put [OF assms(2)] good_write [OF assms(2)] good_def sp sn ov)
  qed
  have C: "\<not> good os' \<longrightarrow> os_rdbuf (run_ops os' ops) = os_rdbuf os' \<and> \<not> good (run_ops os' ops)"
    using not_good_run_ops [of os' ops] by blast
  have D: "good (run_ops os ops)
        \<longrightarrow> handed (os_rdbuf (run_ops os ops)) = handed ?b @ concat (map op_bytes ops)"
    using good_run_ops_handed [OF assms(1), of ops] by blast
  have E: "good (ostream_flush os)
        \<longrightarrow> o_written (out_desc (os_rdbuf (ostream_flush os))) = handed ?b
          \<and> pending (os_rdbuf (ostream_flush os)) = []"
  proof
    assume g: "good (ostream_flush os)"
    then have "fst (sync ?b) \<noteq> - 1"
      by (simp add: good_flush [OF assms(2)] good_def)
    then have z: "fst (sync ?b) = 0" using sync_result [of ?b] by blast
    show "o_written (out_desc (os_rdbuf (ostream_flush os))) = handed ?b
          \<and> pending (os_rdbuf (ostream_flush os)) = []"
      using sync_ok_handed [OF assms(1) z]
      by (simp add: good_flush [OF assms(2)] pending_after_sync)
  qed
  from A B C D E pending_after_sync [of ?b] pending_after_overflow [of ?b k]
  show ?thesis by blast
qed

theorem short_write_fails_stream_witness:
  "out_ok (os_rdbuf example_os) \<and> good example_os
   \<and> out_pptr (os_rdbuf example_os) \<noteq> out_pbase (os_rdbuf example_os)
   \<and> fst (sys_write (out_desc (os_rdbuf example_os)) (pending (os_rdbuf example_os)))
       < int (length (pending (os_rdbuf example_os)))
   \<and> \<not> good (ostream_flush example_os)
   \<and> out_calls (os_rdbuf (ostream_flush example_os)) = [SysWrite 5 [1, 2, 3]]
   \<and> os_rdbuf (run_ops (ostream_flush example_os) [Put 7, Write [8, 9], Flush])
       = os_rdbuf (ostream_flush example_os)
   \<and> \<not> good (run_ops (ostream_flush example_os) [Put 7, Write [8, 9], Flush])
   \<and> out_ok (os_rdbuf example_os_full) \<and> good example_os_full
   \<and> \<not> out_pptr (os_rdbuf example_os_full) < out_epptr (os_rdbuf example_os_full)
   \<and> \<not> good (ostream_put example_os_full 7)
   \<and> out_calls (os_rdbuf (ostream_put example_os_full 7)) = [SysWrite 5 (replicate 4095 9)]
   \<and> out_ok (os_rdbuf example_os_stalling) \<and> good example_os_stalling
   \<and> fst (sync (os_rdbuf example_os_stalling)) = 0
   \<and> \<not> good (ostream_put example_os_stalling 7)
   \<and> out_calls (os_rdbuf (ostream_put example_os_stalling 7))
       = [SysWrite 5 (replicate 4095 9), SysWrite 5 [7]]
   \<and> out_ok (os_rdbuf example_os_accepting) \<and> good example_os_accepting
   \<and> good (run_ops example_os_accepting [Put 7, Flush])
   \<and> handed (os_rdbuf (run_ops example_os_accepting [Put 7, Flush])) = [1, 2, 3, 7]
   \<and> good (ostream_flush example_os_accepting)
   \<and> o_written (out_desc (os_rdbuf (ostream_flush example_os_accepting))) = [1, 2, 3]"
proof -
  have ok1: "out_ok (os_rdbuf example_os)"
    by (simp add: example_os_def out_ok_def example_out_def buffer_end_def buffer_size_def)
  have g1: "good example_os"
    by (simp add: example_os_def good_def)
  have e1: "out_calls (os_rdbuf example_os) = []" "out_fd (os_rdbuf example_os) = 5"
    "pending (os_rdbuf example_os) = [1, 2, 3]"
    "out_pptr (os_rdbuf example_os) \<noteq> out_pbase (os_rdbuf example_os)"
    by (simp_all add: example_os_def example_out_def pending_def)
  have w1: "fst (sys_write (out_desc (os_rdbuf example_os)) [1, 2, 3]) = 1"
    by (simp add: example_os_def example_out_def sys_write_def)
  note t1 = short_write_fails_stream [OF ok1 g1, where os' = "ostream_flush example_os"
      and ops = "[Put 7, Write [8, 9], Flush]"]
  have a1: "\<not> good (ostream_flush example_os)
     \<and> out_calls (os_rdbuf (ostream_flush example_os)) = [SysWrite 5 [1, 2, 3]]"
    using t1 by (simp add: e1 w1)
  then have a2: "os_rdbuf (run_ops (ostream_flush example_os) [Put 7, Write [8, 9], Flush])
       = os_rdbuf (ostream_flush example_os)
     \<and> \<not> good (run_ops (ostream_flush example_os) [Put 7, Write [8, 9], Flush])"
    using t1 by blast
  have ok2: "out_ok (os_rdbuf example_os_full)"
    by (simp add: example_os_full_def example_full_def out_ok_def buffer_end_def buffer_size_def)
  have g2: "good example_os_full"
    by (simp add: example_os_full_def good_def)
  have e2: "out_calls (os_rdbuf example_os_full) = []" "out_fd (os_rdbuf example_os_full) = 5"
    "pending (os_rdbuf example_os_full) = replicate 4095 9"
    "out_pptr (os_rdbuf example_os_full) \<noteq> out_pbase (os_rdbuf example_os_full)"
    "\<not> out_pptr (os_rdbuf example_os_full) < out_epptr (os_rdbuf example_os_full)"
    by (simp_all add: example_os_full_def example_full_def pending_def)
  have w2: "fst (sys_write (out_desc (os_rdbuf example_os_full)) (replicate 4095 9)) = 1"
    by (simp add: example_os_full_def example_full_def sys_write_def)
  have b1: "\<not> good (ostream_put example_os_full 7)
     \<and> out_calls (os_rdbuf (ostream_put example_os_full 7)) = [SysWrite 5 (replicate 4095 9)]"
    using short_write_fails_stream [OF ok2 g2, where c = 7] e2(4,5)
    by (simp add: e2(1,2,3) w2)
  have ok3: "out_ok (os_rdbuf example_os_stalling)"
    by (simp add: example_os_stalling_def example_full_def out_ok_def buffer_end_def
        buffer_size_def)
  have g3: "good example_os_stalling"
    by (simp add: example_os_stalling_def good_def)
  have e3: "out_calls (os_rdbuf example_os_stalling) = []"
    "out_fd (os_rdbuf example_os_stalling) = 5"
    "pending (os_rdbuf example_os_stalling) = replicate 4095 9"
    "out_pptr (os_rdbuf example_os_stalling) \<noteq> out_pbase (os_rdbuf example_os_stalling)"
    "\<not> out_pptr (os_rdbuf example_os_stalling) < out_epptr (os_rdbuf example_os_stalling)"
    "int (out_pptr (os_rdbuf example_os_stalling)) - int (out_pbase (os_rdbuf example_os_stalling))
       = 4095"
    by (simp_all add: example_os_stalling_def example_full_def pending_def)
  have w3: "sys_write (out_desc (os_rdbuf example_os_stalling)) (replicate 4095 9)
      = (4095, \<lparr>o_written = replicate 4095 9, o_accept = [0], o_closed = False\<rparr>)"
    by (simp add: example_os_stalling_def example_full_def sys_write_def)
  have s3: "fst (sync (os_rdbuf example_os_stalling)) = 0"
    "out_desc (snd (sync (os_rdbuf example_os_stalling)))
       = \<lparr>o_written = replicate 4095 9, o_accept = [0], o_closed = False\<rparr>"
    "out_calls (snd (sync (os_rdbuf example_os_stalling))) = [SysWrite 5 (replicate 4095 9)]"
    by (simp_all add: sync_nonempty [OF e3(4)] e3 w3)
  have x3: "fst (sys_write (out_desc (snd (sync (os_rdbuf example_os_stalling)))) [7]) < 1"
    by (simp add: s3 sys_write_def)
  have c1: "\<not> good (ostream_put example_os_stalling 7)
     \<and> out_calls (os_rdbuf (ostream_put example_os_stalling 7))
         = [SysWrite 5 (replicate 4095 9), SysWrite 5 [7]]"
    using short_write_fails_stream [OF ok3 g3, where c = 7] e3(5) s3(1) x3
    by (simp add: s3(3) e3(2))
  have ok4: "out_ok (os_rdbuf example_os_accepting)"
    by (simp add: example_os_accepting_def example_out_accepting_def out_ok_def example_out_def
        buffer_end_def buffer_size_def)
  have g4: "good example_os_accepting"
    by (simp add: example_os_accepting_def good_def)
  have e4: "o_accept (out_desc (os_rdbuf example_os_accepting)) = []"
    "handed (os_rdbuf example_os_accepting) = [1, 2, 3]"
    by (simp_all add: example_os_accepting_def example_out_accepting_def example_out_def
        handed_def pending_def)
  note p4 = sputc_accepting [OF ok4 e4(1), of 7]
  have gp: "good (ostream_put example_os_accepting 7)"
    using p4 g4 by (simp add: good_put [OF g4] good_def)
  have f4: "fst (sync (os_rdbuf (ostream_put example_os_accepting 7))) = 0"
    using p4 by (simp add: good_put [OF g4] sync_accepting)
  have gr: "good (run_ops example_os_accepting [Put 7, Flush])"
    using gp f4 by (simp add: good_flush [OF gp] good_def)
  have f5: "fst (sync (os_rdbuf example_os_accepting)) = 0"
    by (rule sync_accepting [OF ok4 e4(1)])
  have gf: "good (ostream_flush example_os_accepting)"
    using g4 f5 by (simp add: good_flush [OF g4] good_def)
  have d1: "handed (os_rdbuf (run_ops example_os_accepting [Put 7, Flush])) = [1, 2, 3, 7]
     \<and> o_written (out_desc (os_rdbuf (ostream_flush example_os_accepting))) = [1, 2, 3]"
    using short_write_fails_stream [OF ok4 g4, where ops = "[Put 7, Flush]"] gr gf
    by (simp add: e4(2))
  show ?thesis
    using ok1 g1 e1(4) w1 a1 a2 ok2 g2 e2(5) b1 ok3 g3 s3(1) c1 ok4 g4 gr gf d1
    by (simp add: e1(3))
qed


end
